theory Spec2Isabelle
  imports Main "HOL-Library.Word"
begin

section \<open>C strings and the library functions the server calls\<close>

text \<open>
  A byte is a \<^typ>\<open>char\<close>. A C string is modelled by the list of its bytes before the
  terminating NUL; a buffer (memory that may hold NUL bytes anywhere) is a list of all its
  bytes, and \<open>cstr\<close> reads the C string that starts at its first byte.
\<close>

abbreviation NUL :: char where "NUL \<equiv> CHR 0x00"
abbreviation CR :: char where "CR \<equiv> CHR 0x0D"
abbreviation LF :: char where "LF \<equiv> CHR 0x0A"
abbreviation DQUOTE :: char where "DQUOTE \<equiv> CHR 0x22"
abbreviation SQUOTE :: char where "SQUOTE \<equiv> CHR 0x27"
abbreviation ESC :: char where "ESC \<equiv> CHR 0x1B"

definition crlf :: string where
  "crlf = [CR, LF]"

definition cstr :: "char list \<Rightarrow> string" where
  "cstr buf = takeWhile (\<lambda>c. c \<noteq> NUL) buf"

text \<open>Undefined behaviour of the C program that the model makes a value.\<close>

datatype fault = OutOfBounds | NullDeref

definition fbind :: "fault + 'a \<Rightarrow> ('a \<Rightarrow> fault + 'b) \<Rightarrow> fault + 'b" where
  "fbind m f = (case m of Inl e \<Rightarrow> Inl e | Inr x \<Rightarrow> f x)"

text \<open>\<open>strchr\<close>, \<open>strrchr\<close> and \<open>strstr\<close> return the offset of the match, \<open>None\<close> for NULL.\<close>

fun strchr :: "string \<Rightarrow> char \<Rightarrow> nat option" where
  "strchr [] c = None"
| "strchr (x # xs) c = (if x = c then Some 0 else map_option Suc (strchr xs c))"

fun strrchr :: "string \<Rightarrow> char \<Rightarrow> nat option" where
  "strrchr [] c = None"
| "strrchr (x # xs) c =
     (case strrchr xs c of
        Some k \<Rightarrow> Some (Suc k)
      | None \<Rightarrow> if x = c then Some 0 else None)"

fun starts_with :: "string \<Rightarrow> string \<Rightarrow> bool" where
  "starts_with xs [] = True"
| "starts_with [] (y # ys) = False"
| "starts_with (x # xs) (y # ys) = (x = y \<and> starts_with xs ys)"

fun strstr :: "string \<Rightarrow> string \<Rightarrow> nat option" where
  "strstr [] needle = (if needle = [] then Some 0 else None)"
| "strstr (x # xs) needle =
     (if starts_with (x # xs) needle then Some 0 else map_option Suc (strstr xs needle))"

definition tolower :: "char \<Rightarrow> char" where
  "tolower c =
     (case map_of (zip ''ABCDEFGHIJKLMNOPQRSTUVWXYZ'' ''abcdefghijklmnopqrstuvwxyz'') c of
        None \<Rightarrow> c
      | Some l \<Rightarrow> l)"

text \<open>\<open>strcasecmp a b == 0\<close>.\<close>

definition strcasecmp_eq :: "string \<Rightarrow> string \<Rightarrow> bool" where
  "strcasecmp_eq a b = (map tolower a = map tolower b)"

section \<open>htmlspecialchars\<close>

text \<open>
  The loop of \<open>htmlspecialchars\<close>: \<open>i\<close> runs over \<open>s\<close>, \<open>t\<close> is the string built so far.
  \<open>strcat(t, entity)\<close> appends the entity, \<open>strncat(t, s + i, 1)\<close> appends the one byte
  \<open>s[i]\<close>. The variable \<open>new\<close> only sizes the reallocation; \<open>malloc\<close> and \<open>realloc\<close> are
  taken to succeed.
\<close>

function htmlspecialchars_loop :: "string \<Rightarrow> nat \<Rightarrow> string \<Rightarrow> string" where
  "htmlspecialchars_loop s i t =
     (if i < length s then
        (if s ! i = CHR ''&'' then htmlspecialchars_loop s (i + 1) (t @ ''&amp;'')
         else if s ! i = DQUOTE then htmlspecialchars_loop s (i + 1) (t @ ''&quot;'')
         else if s ! i = SQUOTE then htmlspecialchars_loop s (i + 1) (t @ ''&#039;'')
         else if s ! i = CHR ''<'' then htmlspecialchars_loop s (i + 1) (t @ ''&lt;'')
         else if s ! i = CHR ''>'' then htmlspecialchars_loop s (i + 1) (t @ ''&gt;'')
         else htmlspecialchars_loop s (i + 1) (t @ [s ! i]))
      else t)"
  by pat_completeness auto
termination
  by (relation "measure (\<lambda>(s, i, t). length s - i)") auto

declare htmlspecialchars_loop.simps [simp del]

definition htmlspecialchars :: "string \<Rightarrow> string" where
  "htmlspecialchars s = htmlspecialchars_loop s 0 []"

text \<open>The table of entities, as the specification words it.\<close>

definition is_special :: "char \<Rightarrow> bool" where
  "is_special c = (c = CHR ''&'' \<or> c = DQUOTE \<or> c = SQUOTE \<or> c = CHR ''<'' \<or> c = CHR ''>'')"

definition entity :: "char \<Rightarrow> string" where
  "entity c =
     (if c = CHR ''&'' then ''&amp;''
      else if c = DQUOTE then ''&quot;''
      else if c = SQUOTE then ''&#039;''
      else if c = CHR ''<'' then ''&lt;''
      else if c = CHR ''>'' then ''&gt;''
      else [c])"

section \<open>Status lines: reason, respond, error\<close>

text \<open>
  What the server does to the outside is collected in a \<open>world\<close>: the bytes written to the
  client socket \<open>cfd\<close>, the text printed on standard output, and the commands handed to
  \<open>popen\<close>. \<open>wbudget\<close> is the number of writes to the socket that will still succeed; a
  write with no budget left fails, as \<open>dprintf\<close> or \<open>write\<close> returning a negative value.
\<close>

record world =
  sock :: "char list"
  console :: "char list"
  cmds :: "string list"
  wbudget :: nat

definition sock_write :: "char list \<Rightarrow> world \<Rightarrow> bool \<times> world" where
  "sock_write bs w =
     (if wbudget w = 0 then (False, w)
      else (True, w\<lparr>sock := sock w @ bs, wbudget := wbudget w - 1\<rparr>))"

definition printf :: "string \<Rightarrow> world \<Rightarrow> world" where
  "printf s w = w\<lparr>console := console w @ s\<rparr>"

text \<open>The conversion \<open>%i\<close> of \<open>printf\<close>.\<close>

fun digits :: "nat \<Rightarrow> string" where
  "digits n =
     (if n < 10 then [''0123456789'' ! n]
      else digits (n div 10) @ [''0123456789'' ! (n mod 10)])"

declare digits.simps [simp del]

definition show_int :: "int \<Rightarrow> string" where
  "show_int i = (if i < 0 then CHR ''-'' # digits (nat (- i)) else digits (nat i))"

text \<open>\<open>reason\<close> takes an \<open>unsigned short\<close>; \<open>None\<close> is the NULL of the default case.\<close>

definition reason :: "16 word \<Rightarrow> string option" where
  "reason code =
     (if code = 200 then Some ''OK''
      else if code = 301 then Some ''Moved Permanently''
      else if code = 400 then Some ''Bad Request''
      else if code = 403 then Some ''Forbidden''
      else if code = 404 then Some ''Not Found''
      else if code = 405 then Some ''Method Not Allowed''
      else if code = 414 then Some ''Request-URI Too Long''
      else if code = 418 then Some (''I'' @ [SQUOTE] @ ''m a teapot'')
      else if code = 500 then Some ''Internal Server Error''
      else if code = 501 then Some ''Not Implemented''
      else if code = 505 then Some ''HTTP Version Not Supported''
      else None)"

text \<open>
  \<open>respond\<close> takes an \<open>int\<close> and passes it to \<open>reason\<close>, whose parameter is an
  \<open>unsigned short\<close>: the call converts the code modulo \<open>2^16\<close> (\<open>ucast\<close>), while the
  status line prints the \<open>int\<close> itself. \<open>write(cfd, body, length)\<close> sends the first
  \<open>length\<close> bytes of \<open>body\<close>.
\<close>

definition respond :: "32 word \<Rightarrow> string \<Rightarrow> char list \<Rightarrow> nat \<Rightarrow> world \<Rightarrow> world" where
  "respond code headers body len w =
     (case reason (ucast code) of
        None \<Rightarrow> w
      | Some phrase \<Rightarrow>
          (let (ok1, w1) = sock_write (''HTTP/1.1 '' @ show_int (sint code) @ '' '' @ phrase @ crlf) w in
           if \<not> ok1 then w1 else
           let (ok2, w2) = sock_write headers w1 in
           if \<not> ok2 then w2 else
           let (ok3, w3) = sock_write crlf w2 in
           if \<not> ok3 then w3 else
           let (ok4, w4) = sock_write (take len body) w3 in
           if \<not> ok4 then w4 else
           let w5 = printf (if code = 200 then ESC # ''[32m'' else ESC # ''[33m'') w4;
               w6 = printf (''HTTP/1.1 '' @ show_int (sint code) @ '' '' @ phrase) w5
           in printf (ESC # ''[39m'' @ [LF]) w6))"

text \<open>
  \<open>error\<close> renders the template with \<open>sprintf\<close>; the buffer it declares is sized with
  \<open>log10\<close> and is large enough for every code of the table, so only the rendered text
  is modelled.
\<close>

definition error :: "16 word \<Rightarrow> world \<Rightarrow> world" where
  "error code w =
     (case reason code of
        None \<Rightarrow> w
      | Some phrase \<Rightarrow>
          (let body = ''<html><head><title>'' @ show_int (uint code) @ '' '' @ phrase
                 @ ''</title></head><body><h1>'' @ show_int (uint code) @ '' '' @ phrase
                 @ ''</h1></body></html>''
           in respond (ucast code) (''Content-Type: text/html'' @ crlf) body (length body) w))"

definition redirect :: "string \<Rightarrow> world \<Rightarrow> world" where
  "redirect uri w = respond 301 (''Location: '' @ uri @ crlf) [] 0 w"

section \<open>urldecode\<close>

definition isspace :: "char \<Rightarrow> bool" where
  "isspace c = (c = CHR '' '' \<or> c = CHR 0x09 \<or> c = CHR 0x0A \<or> c = CHR 0x0B
                \<or> c = CHR 0x0C \<or> c = CHR 0x0D)"

definition hexval :: "char \<Rightarrow> int option" where
  "hexval c =
     map_of (zip ''0123456789abcdefABCDEF''
                 [0, 1, 2, 3, 4, 5, 6, 7, 8, 9, 10, 11, 12, 13, 14, 15, 10, 11, 12, 13, 14, 15]) c"

fun hexnum :: "string \<Rightarrow> int \<Rightarrow> int" where
  "hexnum [] acc = acc"
| "hexnum (c # cs) acc = (case hexval c of None \<Rightarrow> acc | Some d \<Rightarrow> hexnum cs (16 * acc + d))"

text \<open>
  \<open>strtol(s, NULL, 16)\<close> of the C library: leading white space, an optional sign, an
  optional \<open>0x\<close> that is followed by a hexadecimal digit, then the longest run of
  hexadecimal digits; 0 when there is none; clamped to the range of \<open>long\<close>.
\<close>

definition strtol16 :: "string \<Rightarrow> int" where
  "strtol16 s =
     (let s1 = dropWhile isspace s;
          neg = (case s1 of [] \<Rightarrow> False | c # r \<Rightarrow> c = CHR ''-'');
          s2 = (case s1 of [] \<Rightarrow> [] | c # r \<Rightarrow> if c = CHR ''-'' \<or> c = CHR ''+'' then r else s1);
          s3 = (case s2 of
                  a # b # c # r \<Rightarrow>
                    if a = CHR ''0'' \<and> (b = CHR ''x'' \<or> b = CHR ''X'') \<and> hexval c \<noteq> None
                    then c # r else s2
                | _ \<Rightarrow> s2);
          v = hexnum s3 0
      in if neg then max (- v) (- (2 ^ 63)) else min v (2 ^ 63 - 1))"

text \<open>
  The loop of \<open>urldecode\<close>. \<open>s\<close> is the input string, \<open>n = strlen(s)\<close>, and \<open>t\<close> is the
  buffer of \<open>n + 1\<close> zero bytes that \<open>calloc\<close> returned. Every read of \<open>s\<close> and every
  write of \<open>t\<close> is checked against the bounds of its object: the terminator \<open>s[n]\<close> is
  the last byte of \<open>s\<close> that may be read. \<open>(char) strtol(...)\<close> keeps the low eight bits.
\<close>

function urldecode_loop :: "string \<Rightarrow> nat \<Rightarrow> nat \<Rightarrow> char list \<Rightarrow> fault + char list" where
  "urldecode_loop s i j t =
     (if i < length s then
        (if s ! i = CHR ''%'' \<and> int i < int (length s) - 2 then
           (if i + 2 \<le> length s \<and> j < length t then
              urldecode_loop s (i + 2 + 1) (j + 1)
                (t[j := char_of (strtol16 (cstr [s ! (i + 1), s ! (i + 2), NUL]))])
            else Inl OutOfBounds)
         else if s ! i = CHR ''+'' then
           (if j < length t then urldecode_loop s (i + 1) (j + 1) (t[j := CHR '' ''])
            else Inl OutOfBounds)
         else
           (if j < length t then urldecode_loop s (i + 1) (j + 1) (t[j := s ! i])
            else Inl OutOfBounds))
      else Inr t)"
  by pat_completeness auto
termination
  by (relation "measure (\<lambda>(s, i, j, t). length s - i)") auto

declare urldecode_loop.simps [simp del]

definition urldecode :: "string \<Rightarrow> fault + char list" where
  "urldecode s = urldecode_loop s 0 0 (replicate (length s + 1) NUL)"

text \<open>
  The decoding the loop computes, by recursion on the input: a \<open>%\<close> that has at least two
  bytes after it consumes them and yields the byte \<open>strtol\<close> reads from them.
\<close>

fun pdecode :: "string \<Rightarrow> char list" where
  "pdecode [] = []"
| "pdecode (c # cs) =
     (if c = CHR ''%'' \<and> 2 \<le> length cs then
        char_of (strtol16 (take 2 cs)) # pdecode (drop 2 cs)
      else if c = CHR ''+'' then CHR '' '' # pdecode cs
      else c # pdecode cs)"

section \<open>lookup\<close>

text \<open>
  \<open>strrchr(path, '.')\<close> is NULL when the path has no dot, and \<open>strcasecmp(NULL, ...)\<close>
  dereferences it.
\<close>

definition lookup :: "string \<Rightarrow> fault + string option" where
  "lookup path =
     (case strrchr path (CHR ''.'') of
        None \<Rightarrow> Inl NullDeref
      | Some k \<Rightarrow>
          (let ext = drop k path in
           Inr (if strcasecmp_eq ext ''.css'' then Some ''text/css''
                else if strcasecmp_eq ext ''.html'' then Some ''text/html''
                else if strcasecmp_eq ext ''.gif'' then Some ''image/gif''
                else if strcasecmp_eq ext ''.ico'' then Some ''image/x-ico''
                else if strcasecmp_eq ext ''.jpg'' then Some ''image/jpeg''
                else if strcasecmp_eq ext ''.js'' then Some ''text/javascript''
                else if strcasecmp_eq ext ''.php'' then Some ''text/x-php''
                else if strcasecmp_eq ext ''.png'' then Some ''image/png''
                else None)))"

section \<open>parse\<close>

definition size_t_of :: "int \<Rightarrow> nat" where
  "size_t_of i = nat (i mod 2 ^ 64)"

text \<open>\<open>strncpy\<close> writes exactly \<open>count\<close> bytes: those of the source string, then NULs.\<close>

definition strncpy_bytes :: "string \<Rightarrow> nat \<Rightarrow> char list" where
  "strncpy_bytes src count = take count src @ replicate (count - length src) NUL"

text \<open>
  The idiom \<open>char buf[n + 1]; strncpy(buf, src, n); buf[n] = '\0';\<close> on a local array:
  the value is the string then held by \<open>buf\<close>. The array has \<open>n + 1\<close> bytes and the copy
  count is \<open>n\<close> converted to \<open>size_t\<close>, so a negative \<open>n\<close> writes outside the array.
\<close>

definition vla_strncpy :: "string \<Rightarrow> int \<Rightarrow> fault + string" where
  "vla_strncpy src n =
     (let size = n + 1; count = size_t_of n in
      if 0 \<le> size \<and> int count \<le> size \<and> 0 \<le> n \<and> n < size
      then Inr (cstr (strncpy_bytes src count @ [NUL]))
      else Inl OutOfBounds)"

text \<open>Writes into the caller's buffers \<open>abs_path\<close> and \<open>query\<close>, checked against their size.\<close>

definition buf_store :: "char list \<Rightarrow> nat \<Rightarrow> char list \<Rightarrow> fault + char list" where
  "buf_store buf off bytes =
     (if off + length bytes \<le> length buf
      then Inr (take off buf @ bytes @ drop (off + length bytes) buf)
      else Inl OutOfBounds)"

definition buf_strncpy :: "char list \<Rightarrow> string \<Rightarrow> int \<Rightarrow> fault + char list" where
  "buf_strncpy buf src n = buf_store buf 0 (strncpy_bytes src (size_t_of n))"

definition buf_set :: "char list \<Rightarrow> int \<Rightarrow> char \<Rightarrow> fault + char list" where
  "buf_set buf k c = (if 0 \<le> k then buf_store buf (nat k) [c] else Inl OutOfBounds)"

definition buf_strcpy :: "char list \<Rightarrow> string \<Rightarrow> fault + char list" where
  "buf_strcpy buf src = buf_store buf 0 (src @ [NUL])"

text \<open>
  \<open>parse\<close> returns its \<open>bool\<close>, the two buffers of the caller as it leaves them, and the
  world after the error response, if any. Pointer differences are integers. The
  assignment \<open>query = NULL\<close> changes the parameter only, so the buffer is returned as it was.
\<close>

definition parse ::
    "string \<Rightarrow> char list \<Rightarrow> char list \<Rightarrow> world \<Rightarrow> fault + (bool \<times> char list \<times> char list \<times> world)" where
  "parse line abs_path query w =
     (case strchr line (CHR '' '') of
        None \<Rightarrow> Inr (False, abs_path, query, error 400 w)
      | Some firstSpace \<Rightarrow>
          fbind (vla_strncpy line (int firstSpace)) (\<lambda>method.
          if method \<noteq> ''GET'' then Inr (False, abs_path, query, error 405 w)
          else
            (case strrchr line (CHR '' '') of
               None \<Rightarrow> Inl NullDeref
             | Some secondSpace \<Rightarrow>
                 (let requestSize = int secondSpace - int firstSpace - 1 in
                  fbind (vla_strncpy (drop (firstSpace + 1) line) requestSize) (\<lambda>request.
                  if take 1 request \<noteq> ''/'' then Inr (False, abs_path, query, error 501 w)
                  else if strchr request DQUOTE \<noteq> None then
                    Inr (False, abs_path, query, error 400 w)
                  else
                    (case strstr line crlf of
                       None \<Rightarrow> Inr (False, abs_path, query, error 400 w)
                     | Some clrf \<Rightarrow>
                         fbind (vla_strncpy (drop (secondSpace + 1) line)
                                  (int clrf - int secondSpace + 2)) (\<lambda>version.
                         if version \<noteq> ''HTTP/1.1'' @ crlf then
                           Inr (False, abs_path, query, error 505 w)
                         else if strchr request (CHR ''?'') \<noteq> None then
                           (case strchr line (CHR ''?'') of
                              None \<Rightarrow> Inl NullDeref
                            | Some queryBegins \<Rightarrow>
                                fbind (buf_strncpy abs_path (drop (firstSpace + 1) line)
                                         (int queryBegins - int firstSpace - 1)) (\<lambda>a1.
                                fbind (buf_set a1 (int queryBegins - int firstSpace - 1) NUL) (\<lambda>a2.
                                fbind (buf_strncpy query (drop (queryBegins + 1) line)
                                         (int secondSpace - int queryBegins)) (\<lambda>q1.
                                fbind (buf_set q1 (int secondSpace - int queryBegins) NUL) (\<lambda>q2.
                                Inr (True, a2, q2, w))))))
                         else
                           fbind (buf_strcpy abs_path request) (\<lambda>a1.
                           Inr (True, a1, query, w)))))))))"

section \<open>request\<close>

definition LimitRequestFields :: nat where "LimitRequestFields = 50"
definition LimitRequestFieldSize :: nat where "LimitRequestFieldSize = 4094"
definition LimitRequestLine :: nat where "LimitRequestLine = 8190"
definition BYTES :: nat where "BYTES = 512"

text \<open>
  What one call of \<open>read(cfd, buffer, BYTES)\<close> returns: a negative value, or the bytes
  read (at most \<open>BYTES\<close> of them, none at end of file). The connection is the list of
  these results in the order of the calls; after the last of them the peer stays silent
  and a further \<open>read\<close> does not return.
\<close>

datatype rd = RdError | RdBytes "char list"

text \<open>
  The message is kept with a NUL after its \<open>length\<close> bytes, so the string functions see
  the bytes from an offset up to the first NUL.
\<close>

definition byte_at :: "char list \<Rightarrow> nat \<Rightarrow> char" where
  "byte_at message k = (if k < length message then message ! k else NUL)"

definition strstr_at :: "char list \<Rightarrow> nat \<Rightarrow> string \<Rightarrow> nat option" where
  "strstr_at message off needle = map_option (\<lambda>k. off + k) (strstr (cstr (drop off message)) needle)"

text \<open>
  The loop that scans the header fields. It carries the counter \<open>fields\<close> of the source (here \<open>nfields\<close>),
  which no statement of the loop changes.
\<close>

function scan_fields :: "char list \<Rightarrow> nat \<Rightarrow> nat \<Rightarrow> nat \<times> nat" where
  "scan_fields message haystack nfields =
     (if byte_at message haystack \<noteq> NUL then
        (case strstr_at message haystack crlf of
           None \<Rightarrow> (haystack, nfields)
         | Some needle \<Rightarrow>
             if needle - haystack + 2 > LimitRequestFieldSize then (haystack, nfields)
             else scan_fields message (needle + 2) nfields)
      else (haystack, nfields))"
  by pat_completeness auto
termination
proof (relation "measure (\<lambda>(message, haystack, nfields). length message - haystack)")
  show "wf (measure (\<lambda>(message, haystack, nfields). length message - haystack))"
    by simp
next
  fix message :: "char list" and haystack nfields needle :: nat
  assume b: "byte_at message haystack \<noteq> NUL"
    and s: "strstr_at message haystack crlf = Some needle"
  from b have "haystack < length message"
    by (simp add: byte_at_def split: if_splits)
  moreover from s have "haystack \<le> needle"
    by (auto simp: strstr_at_def)
  ultimately show "((message, needle + 2, nfields), (message, haystack, nfields))
      \<in> measure (\<lambda>(message, haystack, nfields). length message - haystack)"
    by simp
qed

declare scan_fields.simps [simp del]

text \<open>The checks on the message once it is trimmed to end after one CRLF.\<close>

definition request_valid :: "char list \<Rightarrow> bool" where
  "request_valid message =
     (case strstr (cstr message) crlf of
        None \<Rightarrow> False
      | Some needle \<Rightarrow>
          if needle + 2 > LimitRequestLine then False
          else
            (let (haystack, nfields) = scan_fields message (needle + 2) 0 in
             if byte_at message haystack \<noteq> NUL then False
             else if nfields > LimitRequestFields then False
             else True))"

text \<open>
  The reading loop. The result is \<open>None\<close> when \<open>request\<close> does not return, otherwise
  the \<open>bool\<close> it returns with the message it stores (empty for the NULL it stores
  when it fails). \<open>request\<close> is called once \<open>connected\<close> has set \<open>cfd\<close>.
\<close>

fun request_loop :: "rd list \<Rightarrow> char list \<Rightarrow> (bool \<times> char list) option" where
  "request_loop [] message =
     (if length message < LimitRequestLine + LimitRequestFields * LimitRequestFieldSize + 4
      then None else Some (False, []))"
| "request_loop (r # rs) message =
     (if length message < LimitRequestLine + LimitRequestFields * LimitRequestFieldSize + 4 then
        (case r of
           RdError \<Rightarrow> Some (False, [])
         | RdBytes buffer \<Rightarrow>
             (let message1 = message @ buffer;
                  offset = (if length message < 3 then length message else 3)
              in case strstr_at message1 (length message - offset) (crlf @ crlf) of
                   None \<Rightarrow> request_loop rs message1
                 | Some needle \<Rightarrow>
                     (let message2 = take (needle + 2) message1 in
                      if request_valid message2 then Some (True, message2)
                      else Some (False, []))))
      else Some (False, []))"

definition request :: "rd list \<Rightarrow> (bool \<times> char list) option" where
  "request reads = request_loop reads []"

section \<open>The handlers and the body of main's loop\<close>

text \<open>
  The file system and the interpreter, as the server observes them: \<open>access\<close> with
  \<open>F_OK\<close>, \<open>R_OK\<close> and \<open>R_OK | X_OK\<close>, \<open>stat\<close> with \<open>S_ISDIR\<close>, \<open>opendir\<close>,
  \<open>scandir\<close> with \<open>alphasort\<close> (\<open>None\<close> when it returns -1), the bytes of the file
  that \<open>fopen\<close> opens for reading, and the bytes that the command given to \<open>popen\<close>
  writes to its standard output (\<open>None\<close> when the call returns NULL).
\<close>

record env =
  root :: string
  access_F :: "string \<Rightarrow> bool"
  access_R :: "string \<Rightarrow> bool"
  access_RX :: "string \<Rightarrow> bool"
  is_dir :: "string \<Rightarrow> bool"
  opendir_ok :: "string \<Rightarrow> bool"
  scandir :: "string \<Rightarrow> string list option"
  fopen_r :: "string \<Rightarrow> char list option"
  popen_r :: "string \<Rightarrow> char list option"

text \<open>
  From \<open>parse\<close> on, undefined behaviour ends the handling of the request; the handlers
  report it with the world at that moment, so that what the server had done before is
  kept. \<open>final_world\<close> reads the world in which a handler ends, either way.
\<close>

definition wbind :: "world \<Rightarrow> fault + 'a \<Rightarrow> ('a \<Rightarrow> (fault \<times> world) + 'b) \<Rightarrow> (fault \<times> world) + 'b" where
  "wbind w m f = (case m of Inl x \<Rightarrow> Inl (x, w) | Inr y \<Rightarrow> f y)"

definition final_world :: "(fault \<times> world) + world \<Rightarrow> world" where
  "final_world r = (case r of Inl (x, w) \<Rightarrow> w | Inr w \<Rightarrow> w)"

definition indexes :: "env \<Rightarrow> string \<Rightarrow> string option" where
  "indexes e path =
     (let indexphp = path @ ''/index.php''; indexhtml = path @ ''/index.html'' in
      if access_F e indexphp then Some indexphp
      else if access_F e indexhtml then Some indexhtml
      else None)"

text \<open>
  A \<open>FILE\<close> that \<open>load\<close> is given: the regular file that \<open>fopen\<close> opened, or the pipe
  that \<open>popen\<close> opened, with the bytes it delivers. \<open>ftell_end\<close> is what \<open>ftell\<close>
  returns after \<open>fseek(file, 0, SEEK_END)\<close>: the size of a regular file; on a pipe both
  calls fail and \<open>ftell\<close> returns -1.
\<close>

datatype stream = RegularFile "char list" | Pipe "char list"

fun stream_bytes :: "stream \<Rightarrow> char list" where
  "stream_bytes (RegularFile bs) = bs"
| "stream_bytes (Pipe bs) = bs"

fun ftell_end :: "stream \<Rightarrow> int" where
  "ftell_end (RegularFile bs) = int (length bs)"
| "ftell_end (Pipe bs) = - 1"

text \<open>
  \<open>load\<close>, for a \<open>file\<close> that is not NULL. \<open>*length\<close> (here \<open>len\<close>) is the result of
  \<open>ftell\<close> converted to \<open>size_t\<close>; \<open>malloc(*length + 1)\<close> allocates \<open>size\<close> bytes, the
  sum taken in \<open>size_t\<close>, and is taken to return a block (also for \<open>size = 0\<close>);
  \<open>fread(buffer, *length, 1, file)\<close> stores the bytes the stream delivers, at most
  \<open>len\<close> of them, and writes past the block when they are more than \<open>size\<close>. The result
  is the bytes that \<open>fread\<close> stored, which is all that the block holds (\<open>load\<close> sets no
  byte after them), with \<open>len\<close>.
\<close>

definition load :: "stream \<Rightarrow> fault + (char list \<times> nat)" where
  "load file =
     (let len = size_t_of (ftell_end file);
          size = (len + 1) mod 2 ^ 64;
          data = take len (stream_bytes file)
      in if length data \<le> size then Inr (data, len) else Inl OutOfBounds)"

text \<open>The command that \<open>interpret\<close> renders with \<open>sprintf\<close> from its format.\<close>

definition php_command :: "string \<Rightarrow> string \<Rightarrow> string" where
  "php_command path query =
     ''QUERY_STRING='' @ [DQUOTE] @ query @ [DQUOTE]
       @ '' REDIRECT_STATUS=200 SCRIPT_FILENAME='' @ [DQUOTE] @ path @ [DQUOTE] @ '' php-cgi''"

text \<open>
  \<open>interpret\<close> of the source. It calls \<open>load\<close> on the pipe. \<open>strstr\<close> then reads the
  bytes that \<open>load\<close> stored up to the first NUL, and past them when there is none. The
  length of the body is \<open>length - (needle - haystack + 4)\<close> in \<open>size_t\<close>.
\<close>

definition interpret_php :: "env \<Rightarrow> string \<Rightarrow> string \<Rightarrow> world \<Rightarrow> (fault \<times> world) + world" where
  "interpret_php e path query w =
     (if \<not> access_R e path then Inr (error 403 w)
      else
        (let command = php_command path query;
             w1 = w\<lparr>cmds := cmds w @ [command]\<rparr>
         in case popen_r e command of
              None \<Rightarrow> Inr (error 500 w1)
            | Some out \<Rightarrow>
                wbind w1 (load (Pipe out)) (\<lambda>(content, len).
                if NUL \<notin> set content then Inl (OutOfBounds, w1)
                else
                  (case strstr (cstr content) (crlf @ crlf) of
                     None \<Rightarrow> Inr (error 500 w1)
                   | Some needle \<Rightarrow>
                       (let headers = take (needle + 2) content in
                        Inr (respond 200 headers (drop (needle + 4) content)
                               (size_t_of (int len - (int needle + 4))) w1))))))"

fun list_items :: "string list \<Rightarrow> string \<Rightarrow> string" where
  "list_items [] lst = lst"
| "list_items (name # names) lst =
     (if name = ''.'' then list_items names lst
      else
        (let escaped = htmlspecialchars name in
         list_items names
           (lst @ ''<li><a href='' @ [DQUOTE] @ escaped @ [DQUOTE] @ ''>'' @ escaped @ ''</a></li>'')))"

definition list_dir :: "env \<Rightarrow> string \<Rightarrow> world \<Rightarrow> world" where
  "list_dir e path w =
     (if \<not> access_RX e path then error 403 w
      else if \<not> opendir_ok e path then w
      else
        (let lst = list_items (case scandir e path of None \<Rightarrow> [] | Some names \<Rightarrow> names) [];
             relative = drop (length (root e)) path;
             body = ''<html><head><title>'' @ relative @ ''</title></head><body><h1>'' @ relative
               @ ''</h1><ul>'' @ lst @ ''</ul></body></html>''
         in respond 200 (''Content-Type: text/html'' @ crlf) body (length body) w))"

definition transfer :: "env \<Rightarrow> string \<Rightarrow> string \<Rightarrow> world \<Rightarrow> (fault \<times> world) + world" where
  "transfer e path type w =
     (if \<not> access_R e path then Inr (error 403 w)
      else
        (case fopen_r e path of
           None \<Rightarrow> Inr (error 500 w)
         | Some bytes \<Rightarrow>
             wbind w (load (RegularFile bytes)) (\<lambda>(content, len).
             Inr (respond 200 (''Content-Type: '' @ type @ crlf) content len w))))"

text \<open>
  The end of the loop body of \<open>main\<close>, from the call of \<open>lookup\<close> on: reached with the
  path of a file, or with the index file of a directory. \<open>query\<close> is the caller's buffer;
  \<open>interpret\<close> reads the string in it, which runs past the buffer if it holds no NUL.
\<close>

definition serve_file :: "env \<Rightarrow> string \<Rightarrow> char list \<Rightarrow> world \<Rightarrow> (fault \<times> world) + world" where
  "serve_file e path query w =
     wbind w (lookup path) (\<lambda>type.
     case type of
       None \<Rightarrow> Inr (error 501 w)
     | Some ty \<Rightarrow>
         if strcasecmp_eq ''text/x-php'' ty then
           (if NUL \<in> set query then interpret_php e path (cstr query) w
            else Inl (OutOfBounds, w))
         else transfer e path ty w)"

text \<open>
  The body of the loop of \<open>main\<close> once \<open>request\<close> has returned true with \<open>message\<close>.
  \<open>abs_path0\<close> and \<open>query0\<close> are the contents of the two arrays \<open>abs_path\<close> and \<open>query\<close>
  when they are declared: \<open>main\<close> does not initialise them.
\<close>

definition handle ::
    "env \<Rightarrow> char list \<Rightarrow> char list \<Rightarrow> char list \<Rightarrow> world \<Rightarrow> (fault \<times> world) + world" where
  "handle e message abs_path0 query0 w =
     (case strstr (cstr message) crlf of
        None \<Rightarrow> Inr (error 500 w)
      | Some needle \<Rightarrow>
          wbind w (vla_strncpy (cstr message) (int needle + 2)) (\<lambda>line.
          wbind (printf line w) (parse line abs_path0 query0 (printf line w))
            (\<lambda>(ok, abs_path, query, w2).
          if \<not> ok then Inr w2
          else
            wbind w2 (urldecode (cstr abs_path)) (\<lambda>p.
            let path = root e @ cstr p in
            if \<not> access_F e path then Inr (error 404 w2)
            else if is_dir e path then
              (if cstr abs_path = [] then Inl (OutOfBounds, w2)
               else if last (cstr abs_path) \<noteq> CHR ''/'' then
                 Inr (redirect (cstr abs_path @ ''/'') w2)
               else
                 (case indexes e path of
                    Some index \<Rightarrow> serve_file e index query w2
                  | None \<Rightarrow> Inr (list_dir e path w2)))
            else serve_file e path query w2))))"

section \<open>What a response carries\<close>

text \<open>
  The closed set of status codes, the status line of a code, and the relation between
  the world before and after a handler that holds when the handler wrote nothing to the
  socket, or what it wrote begins with the status line of a code of the closed set.
\<close>

definition closed_set :: "16 word list" where
  "closed_set = [200, 301, 400, 403, 404, 405, 414, 418, 500, 501, 505]"

definition status_line :: "16 word \<Rightarrow> string" where
  "status_line c =
     ''HTTP/1.1 '' @ show_int (uint c) @ '' ''
       @ (case reason c of None \<Rightarrow> [] | Some phrase \<Rightarrow> phrase) @ crlf"

definition carries_closed_status :: "world \<Rightarrow> world \<Rightarrow> bool" where
  "carries_closed_status w w' =
     (sock w' = sock w
      \<or> list_ex (\<lambda>c. starts_with (sock w') (sock w @ status_line c)) closed_set)"

section \<open>Example inputs\<close>

text \<open>A connection on which nothing has been written yet and four writes will succeed.\<close>

definition fresh_world :: world where
  "fresh_world = \<lparr>sock = [], console = [], cmds = [], wbudget = 4\<rparr>"

text \<open>
  A server root \<open>/srv/www\<close> that holds the directory \<open>docs\<close>, the script \<open>app.php\<close> and
  the file \<open>README\<close>; the interpreter prints one header and the body \<open>hello\<close>.
\<close>

definition example_env :: env where
  "example_env =
     \<lparr>root = ''/srv/www'',
      access_F = (\<lambda>p. p = ''/srv/www/docs'' \<or> p = ''/srv/www/app.php'' \<or> p = ''/srv/www/README''),
      access_R = (\<lambda>p. True),
      access_RX = (\<lambda>p. True),
      is_dir = (\<lambda>p. p = ''/srv/www/docs''),
      opendir_ok = (\<lambda>p. True),
      scandir = (\<lambda>p. Some []),
      fopen_r = (\<lambda>p. Some []),
      popen_r = (\<lambda>c. Some (''Content-Type: text/plain'' @ crlf @ crlf @ ''hello''))\<rparr>"

section \<open>Properties of htmlspecialchars\<close>

lemma htmlspecialchars_loop_concat:
  "i \<le> length s \<Longrightarrow> htmlspecialchars_loop s i t = t @ concat (map entity (drop i s))"
proof (induction s i t rule: htmlspecialchars_loop.induct)
  case (1 s i t)
  show ?case
  proof (cases "i < length s")
    case True
    then have d: "drop i s = s ! i # drop (i + 1) s"
      by (simp add: Cons_nth_drop_Suc)
    from True have le: "i + 1 \<le> length s" by simp
    have e: "entity (s ! i) =
        (if s ! i = CHR ''&'' then ''&amp;''
         else if s ! i = DQUOTE then ''&quot;''
         else if s ! i = SQUOTE then ''&#039;''
         else if s ! i = CHR ''<'' then ''&lt;''
         else if s ! i = CHR ''>'' then ''&gt;''
         else [s ! i])"
      by (simp add: entity_def)
    show ?thesis
      using True "1.IH" le
      by (subst htmlspecialchars_loop.simps) (simp add: d e)
  next
    case False
    with "1.prems" show ?thesis
      by (subst htmlspecialchars_loop.simps) simp
  qed
qed

lemma htmlspecialchars_concat: "htmlspecialchars s = concat (map entity s)"
  by (simp add: htmlspecialchars_def htmlspecialchars_loop_concat)

lemma entity_twice:
  "concat (map entity (entity c)) = (if is_special c then ''&amp;'' @ tl (entity c) else [c])"
  by (simp add: entity_def is_special_def)

lemma concat_map_concat_map:
  "concat (map f (concat (map g xs))) = concat (map (\<lambda>x. concat (map f (g x))) xs)"
  by (induction xs) simp_all

lemma length_entity_twice:
  "length (concat (map entity (entity c))) = length (entity c) + (if is_special c then 4 else 0)"
  by (simp add: entity_def is_special_def)

lemma length_twice:
  "length (concat (map (\<lambda>x. concat (map entity (entity x))) s)) =
     length (concat (map entity s)) + 4 * length (filter is_special s)"
  by (induction s) (simp_all add: length_entity_twice)

text \<open>
  Claim C7. \<open>htmlspecialchars\<close> replaces \<open>&\<close>, the double quote, the single quote,
  \<open><\<close> and \<open>>\<close> by \<open>&amp;\<close>, \<open>&quot;\<close>, \<open>&#039;\<close>, \<open>&lt;\<close> and \<open>&gt;\<close>
  and copies every other byte; it maps the example of the specification to the stated
  text; and it is not idempotent: a second pass turns the \<open>&\<close> of every entity the first
  pass produced into \<open>&amp;\<close>, which adds four bytes per escaped byte.
\<close>

theorem htmlspecialchars_entities:
  "htmlspecialchars s = concat (map entity s)
   \<and> htmlspecialchars (''<a>&'' @ [DQUOTE, SQUOTE] @ ''</a>'') = ''&lt;a&gt;&amp;&quot;&#039;&lt;/a&gt;''
   \<and> htmlspecialchars (htmlspecialchars s) =
       concat (map (\<lambda>c. if is_special c then ''&amp;'' @ tl (entity c) else [c]) s)
   \<and> length (htmlspecialchars (htmlspecialchars s)) =
       length (htmlspecialchars s) + 4 * length (filter is_special s)
   \<and> ((\<exists>c \<in> set s. is_special c) \<longrightarrow> htmlspecialchars (htmlspecialchars s) \<noteq> htmlspecialchars s)"
proof -
  have one: "htmlspecialchars s = concat (map entity s)" for s
    by (rule htmlspecialchars_concat)
  have ex: "htmlspecialchars (''<a>&'' @ [DQUOTE, SQUOTE] @ ''</a>'') = ''&lt;a&gt;&amp;&quot;&#039;&lt;/a&gt;''"
    by (simp add: one entity_def)
  have two: "htmlspecialchars (htmlspecialchars s) =
       concat (map (\<lambda>c. if is_special c then ''&amp;'' @ tl (entity c) else [c]) s)"
    by (simp add: one concat_map_concat_map entity_twice)
  have len: "length (htmlspecialchars (htmlspecialchars s)) =
       length (htmlspecialchars s) + 4 * length (filter is_special s)"
    by (simp only: one concat_map_concat_map length_twice)
  have ne: "htmlspecialchars (htmlspecialchars s) \<noteq> htmlspecialchars s" if "\<exists>c \<in> set s. is_special c"
  proof -
    from that have "filter is_special s \<noteq> []"
      by (simp add: filter_empty_conv)
    then have "0 < length (filter is_special s)" by simp
    with len have "length (htmlspecialchars (htmlspecialchars s)) \<noteq> length (htmlspecialchars s)"
      by simp
    then show ?thesis by auto
  qed
  from one ex two len ne show ?thesis by blast
qed

theorem htmlspecialchars_entities_witness:
  "(\<exists>c \<in> set ''a<b''. is_special c)
   \<and> htmlspecialchars ''a<b'' = ''a&lt;b''
   \<and> htmlspecialchars (htmlspecialchars ''a<b'') = ''a&amp;lt;b''
   \<and> htmlspecialchars (htmlspecialchars ''a<b'') \<noteq> htmlspecialchars ''a<b''"
proof -
  note t = htmlspecialchars_entities [of "''a<b''"]
  have h: "\<exists>c \<in> set ''a<b''. is_special c"
    by (simp add: is_special_def)
  have a: "htmlspecialchars ''a<b'' = ''a&lt;b''"
    by (simp add: t [THEN conjunct1] entity_def)
  have b: "htmlspecialchars (htmlspecialchars ''a<b'') = ''a&amp;lt;b''"
    by (simp add: t [THEN conjunct2, THEN conjunct2, THEN conjunct1] entity_def is_special_def)
  have c: "htmlspecialchars (htmlspecialchars ''a<b'') \<noteq> htmlspecialchars ''a<b''"
    using t [THEN conjunct2, THEN conjunct2, THEN conjunct2, THEN conjunct2] h by blast
  from h a b c show ?thesis by blast
qed


section \<open>Properties of respond and error\<close>

lemma respond_unknown: "reason (ucast code) = None \<Longrightarrow> respond code headers body len w = w"
  by (simp add: respond_def)

lemma error_unknown: "reason code = None \<Longrightarrow> error code w = w"
  by (simp add: error_def)

lemma cmds_respond: "cmds (respond code headers body len w) = cmds w"
  by (simp add: respond_def sock_write_def printf_def split: option.splits)

lemma cmds_error: "cmds (error code w) = cmds w"
  by (simp add: error_def cmds_respond Let_def split: option.splits)

lemma reason_Some_iff:
  "reason code \<noteq> None \<longleftrightarrow> code \<in> {200, 301, 400, 403, 404, 405, 414, 418, 500, 501, 505}"
  by (simp add: reason_def)

lemma ucast_16_32_16: "(ucast (ucast (code :: 16 word) :: 32 word) :: 16 word) = code"
  by (rule bit_word_eqI) (auto simp: bit_simps)

text \<open>
  Claim C8, as stated, fails for \<open>respond\<close>: its parameter is an \<open>int\<close>, and the code
  65736 = 65536 + 200 is outside the closed set, yet \<open>reason\<close> receives it as 200 and
  \<open>respond\<close> writes a status line.
\<close>

theorem respond_truncated_code_counterexample:
  "(65736 :: 32 word) \<notin> {200, 301, 400, 403, 404, 405, 414, 418, 500, 501, 505}
   \<and> sock (respond 65736 [] [] 0 fresh_world)
       = ''HTTP/1.1 65736 OK'' @ crlf @ crlf"
  by (simp add: respond_def reason_def sock_write_def printf_def show_int_def digits.simps crlf_def
      fresh_world_def)


section \<open>Properties of parse\<close>

lemma strchr_None_iff: "strchr s c = None \<longleftrightarrow> c \<notin> set s"
  by (induction s) auto

lemma strrchr_None_iff: "strrchr s c = None \<longleftrightarrow> c \<notin> set s"
  by (induction s) (auto split: option.splits)

lemma strrchr_append:
  "strrchr (xs @ ys) c =
     (case strrchr ys c of Some k \<Rightarrow> Some (length xs + k) | None \<Rightarrow> strrchr xs c)"
  by (induction xs) (auto split: option.splits)

lemma vla_strncpy_nonneg: "0 \<le> n \<Longrightarrow> \<exists>r. vla_strncpy src n = Inr r"
proof -
  assume n: "0 \<le> n"
  have "n mod 2 ^ 64 \<le> n" using n by (rule zmod_le_nonneg_dividend)
  then show ?thesis using n by (simp add: vla_strncpy_def size_t_of_def)
qed

lemma vla_strncpy_neg: "n < 0 \<Longrightarrow> vla_strncpy src n = Inl OutOfBounds"
  by (simp add: vla_strncpy_def)

lemma vla_strncpy_set: "vla_strncpy src n = Inr r \<Longrightarrow> set r \<subseteq> set src"
  by (auto simp: vla_strncpy_def strncpy_bytes_def cstr_def Let_def
      dest!: set_takeWhileD in_set_takeD split: if_splits)

text \<open>
  Claim C10. The extraction of the request-target in \<open>parse\<close> stays inside its array only
  when the line has two distinct spaces. For every line that begins with \<open>GET \<close> and has
  no other space, the first and the last space are the same byte, the computed length
  \<open>secondSpace - firstSpace - 1\<close> is -1, the copy into the array of \<open>requestSize + 1 = 0\<close>
  bytes is out of bounds, and \<open>parse\<close> ends there, with none of its error responses. When
  the line has a second space the copy stays in bounds.
\<close>

theorem parse_single_space:
  "(CHR '' '' \<notin> set rest \<longrightarrow>
      strchr (''GET '' @ rest) (CHR '' '') = Some 3
      \<and> strrchr (''GET '' @ rest) (CHR '' '') = Some 3
      \<and> int 3 - int 3 - 1 = - 1
      \<and> vla_strncpy (drop (3 + 1) (''GET '' @ rest)) (int 3 - int 3 - 1) = Inl OutOfBounds
      \<and> parse (''GET '' @ rest) abs_path query w = Inl OutOfBounds)
   \<and> (CHR '' '' \<in> set rest \<longrightarrow>
      (\<exists>secondSpace request. strrchr (''GET '' @ rest) (CHR '' '') = Some secondSpace
         \<and> 3 < secondSpace
         \<and> vla_strncpy (drop (3 + 1) (''GET '' @ rest)) (int secondSpace - int 3 - 1) = Inr request))"
proof (intro conjI impI)
  assume ns: "CHR '' '' \<notin> set rest"
  then have r: "strrchr rest (CHR '' '') = None"
    by (simp add: strrchr_None_iff)
  show c1: "strchr (''GET '' @ rest) (CHR '' '') = Some 3"
    by simp
  show c2: "strrchr (''GET '' @ rest) (CHR '' '') = Some 3"
    by (simp add: strrchr_append r)
  show "int 3 - int 3 - 1 = - 1" by simp
  show c3: "vla_strncpy (drop (3 + 1) (''GET '' @ rest)) (int 3 - int 3 - 1) = Inl OutOfBounds"
    by (simp add: vla_strncpy_neg)
  have m: "vla_strncpy (''GET '' @ rest) (int 3) = Inr ''GET''"
    by (simp add: vla_strncpy_def size_t_of_def strncpy_bytes_def cstr_def)
  show "parse (''GET '' @ rest) abs_path query w = Inl OutOfBounds"
    using c2 c3 m by (simp add: parse_def fbind_def)
next
  assume "CHR '' '' \<in> set rest"
  then obtain k where k: "strrchr rest (CHR '' '') = Some k"
    using strrchr_None_iff [of rest "CHR '' ''"] by (cases "strrchr rest (CHR '' '')") auto
  then have s: "strrchr (''GET '' @ rest) (CHR '' '') = Some (4 + k)"
    by (simp add: strrchr_append)
  have "0 \<le> int (4 + k) - int 3 - 1" by simp
  then obtain request where
    "vla_strncpy (drop (3 + 1) (''GET '' @ rest)) (int (4 + k) - int 3 - 1) = Inr request"
    using vla_strncpy_nonneg by blast
  with s show "\<exists>secondSpace request. strrchr (''GET '' @ rest) (CHR '' '') = Some secondSpace
         \<and> 3 < secondSpace
         \<and> vla_strncpy (drop (3 + 1) (''GET '' @ rest)) (int secondSpace - int 3 - 1) = Inr request"
    by (intro exI [of _ "4 + k"] exI [of _ request]) simp
qed


theorem parse_single_space_witness:
  "CHR '' '' \<notin> set crlf
   \<and> parse (''GET '' @ crlf) (replicate 8191 NUL) (replicate 8191 NUL) fresh_world = Inl OutOfBounds
   \<and> CHR '' '' \<in> set (''/ HTTP/1.1'' @ crlf)
   \<and> strrchr (''GET / HTTP/1.1'' @ crlf) (CHR '' '') = Some 5
   \<and> vla_strncpy (drop 4 (''GET / HTTP/1.1'' @ crlf)) 1 = Inr ''/''"
proof -
  have h1: "CHR '' '' \<notin> set crlf" by (simp add: crlf_def)
  have h2: "CHR '' '' \<in> set (''/ HTTP/1.1'' @ crlf)" by simp
  from parse_single_space [of crlf "replicate 8191 NUL" "replicate 8191 NUL" fresh_world] h1
  have a: "parse (''GET '' @ crlf) (replicate 8191 NUL) (replicate 8191 NUL) fresh_world
      = Inl OutOfBounds"
    by blast
  from parse_single_space [of "''/ HTTP/1.1'' @ crlf" "[]" "[]" fresh_world] h2
  obtain secondSpace request where
    b: "strrchr (''GET '' @ ''/ HTTP/1.1'' @ crlf) (CHR '' '') = Some secondSpace"
      "vla_strncpy (drop (3 + 1) (''GET '' @ ''/ HTTP/1.1'' @ crlf)) (int secondSpace - int 3 - 1)
        = Inr request"
    by blast
  from b(1) have s: "secondSpace = 5" by (simp add: crlf_def)
  from b(2) have r: "request = ''/''"
    by (simp add: s vla_strncpy_def size_t_of_def strncpy_bytes_def cstr_def)
  from b s r have c: "strrchr (''GET / HTTP/1.1'' @ crlf) (CHR '' '') = Some 5"
    and d: "vla_strncpy (drop 4 (''GET / HTTP/1.1'' @ crlf)) 1 = Inr ''/''"
    by simp_all
  from h1 a h2 c d show ?thesis by blast
qed

lemma parse_True_world:
  "parse line abs_path0 query0 w = Inr (True, abs_path, query, w') \<Longrightarrow> w' = w"
  unfolding parse_def fbind_def Let_def
  by (simp split: option.splits sum.splits if_splits)

lemma parse_True_no_query:
  assumes "parse line abs_path0 query0 w = Inr (True, abs_path, query, w')"
    and "CHR ''?'' \<notin> set line"
  shows "query = query0"
proof -
  have nq: "strchr request (CHR ''?'') = None"
    if "vla_strncpy (drop k line) n = Inr request" for k n request
  proof -
    from that have "set request \<subseteq> set (drop k line)" by (rule vla_strncpy_set)
    also have "\<dots> \<subseteq> set line" by (rule set_drop_subset)
    finally show ?thesis using assms(2) by (auto simp: strchr_None_iff)
  qed
  show ?thesis
    using assms(1) unfolding parse_def fbind_def Let_def
    by (simp split: option.splits sum.splits if_splits add: nq)
qed


section \<open>Properties of the loop body of main\<close>

lemmas parse_eval = parse_def fbind_def vla_strncpy_def size_t_of_def strncpy_bytes_def cstr_def
  crlf_def buf_strncpy_def buf_set_def buf_strcpy_def buf_store_def

text \<open>
  Claim C1 on the code. On the request line \<open>GET /a/b?x=1 HTTP/1.1\<close> followed by CRLF,
  \<open>parse\<close> returns true and stores the path \<open>/a/b\<close>, but the query it stores is
  \<open>x=1\<close> followed by a space: the count \<open>secondSpace - queryBegins\<close> of the copy that
  starts after the \<open>?\<close> is one more than the number of bytes before the last space.
\<close>

theorem parse_query_keeps_space:
  "parse (''GET /a/b?x=1 HTTP/1.1'' @ crlf) (replicate 8191 a) (replicate 8191 b) w =
     Inr (True, ''/a/b'' @ NUL # replicate 8186 a, ''x=1 '' @ NUL # replicate 8186 b, w)
   \<and> cstr (''/a/b'' @ NUL # replicate 8186 a) = ''/a/b''
   \<and> cstr (''x=1 '' @ NUL # replicate 8186 b) = ''x=1 ''
   \<and> ''x=1 '' \<noteq> ''x=1''"
  by (simp add: parse_eval)

lemma cmds_interpret_php:
  "access_R e path \<Longrightarrow>
   cmds (final_world (interpret_php e path query w)) =
     cmds w @ [''QUERY_STRING='' @ [DQUOTE] @ query @ [DQUOTE]
               @ '' REDIRECT_STATUS=200 SCRIPT_FILENAME='' @ [DQUOTE] @ path @ [DQUOTE] @ '' php-cgi'']"
  by (simp add: interpret_php_def php_command_def wbind_def final_world_def Let_def cmds_error
      cmds_respond split: option.splits sum.splits prod.splits)

lemma strcasecmp_php: "strcasecmp_eq ''text/x-php'' ''text/x-php''"
  by (simp add: strcasecmp_eq_def)

text \<open>
  Claim C9. For a request line \<open>GET target HTTP/1.1\<close> whose target has no \<open>?\<close>,
  whenever \<open>parse\<close> returns true it returns the caller's \<open>query\<close> buffer exactly as it
  received it. When the path of that request resolves to an existing PHP script, \<open>main\<close>
  hands this unchanged buffer to \<open>interpret\<close>, and the command given to \<open>popen\<close> has
  the string found in it, which \<open>main\<close> never initialised, as \<open>QUERY_STRING\<close>,
  however \<open>interpret\<close> ends after that call.
\<close>

theorem parse_leaves_query_buffer:
  assumes shape: "line = ''GET '' @ target @ '' HTTP/1.1'' @ crlf"
    and nq: "CHR ''?'' \<notin> set target"
    and ex: "strstr (cstr message) crlf = Some needle"
      "vla_strncpy (cstr message) (int needle + 2) = Inr line"
    and pr: "parse line abs_path0 query0 (printf line w) = Inr (True, abs_path, query, w')"
    and ud: "urldecode (cstr abs_path) = Inr p"
    and fl: "access_F e (root e @ cstr p)" "\<not> is_dir e (root e @ cstr p)"
    and php: "lookup (root e @ cstr p) = Inr (Some ''text/x-php'')"
    and rd: "access_R e (root e @ cstr p)"
    and nul: "NUL \<in> set query0"
  shows "(\<forall>w1 a q w2. parse line abs_path0 query0 w1 = Inr (True, a, q, w2) \<longrightarrow> q = query0)
    \<and> query = query0
    \<and> handle e message abs_path0 query0 w =
        interpret_php e (root e @ cstr p) (cstr query0) (printf line w)
    \<and> cmds (final_world (handle e message abs_path0 query0 w)) =
        cmds w @
          [''QUERY_STRING='' @ [DQUOTE] @ cstr query0 @ [DQUOTE]
           @ '' REDIRECT_STATUS=200 SCRIPT_FILENAME='' @ [DQUOTE] @ root e @ cstr p @ [DQUOTE]
           @ '' php-cgi'']"
proof -
  from shape nq have nl: "CHR ''?'' \<notin> set line"
    by (simp add: crlf_def)
  have frame: "q = query0" if "parse line abs_path0 query0 w1 = Inr (True, a, q, w2)" for w1 a q w2
    using that nl by (rule parse_True_no_query)
  from pr have q: "query = query0" by (rule frame)
  from pr have w': "w' = printf line w" by (rule parse_True_world)
  have h: "handle e message abs_path0 query0 w =
      interpret_php e (root e @ cstr p) (cstr query0) (printf line w)"
    using ex pr ud fl php nul
    by (simp add: handle_def wbind_def serve_file_def q w' strcasecmp_php)
  have c: "cmds (printf line w) = cmds w"
    by (simp add: printf_def)
  from frame q h show ?thesis
    by (simp add: cmds_interpret_php [OF rd] c)
qed


lemma redirect_sock:
  "4 \<le> wbudget w \<Longrightarrow>
   sock (redirect uri w) =
     sock w @ ''HTTP/1.1 301 Moved Permanently'' @ crlf @ ''Location: '' @ uri @ crlf @ crlf"
  by (simp add: redirect_def respond_def reason_def sock_write_def printf_def show_int_def
      digits.simps)

text \<open>
  Claim C5. When the request line is accepted by \<open>parse\<close>, the decoded path under the
  server root exists and is a directory, and the path stored by \<open>parse\<close> (still
  percent-encoded) does not end in \<open>/\<close>, the server writes the status line
  \<open>HTTP/1.1 301 Moved Permanently\<close>, the header \<open>Location:\<close> with that stored path
  followed by \<open>/\<close>, the blank line, and no body.
\<close>

theorem directory_redirect:
  assumes ex: "strstr (cstr message) crlf = Some needle"
      "vla_strncpy (cstr message) (int needle + 2) = Inr line"
    and pr: "parse line abs_path0 query0 (printf line w) = Inr (True, abs_path, query, w')"
    and ud: "urldecode (cstr abs_path) = Inr p"
    and dir: "access_F e (root e @ cstr p)" "is_dir e (root e @ cstr p)"
    and ne: "cstr abs_path \<noteq> []"
    and slash: "last (cstr abs_path) \<noteq> CHR ''/''"
    and budget: "4 \<le> wbudget w"
  shows "\<exists>w''. handle e message abs_path0 query0 w = Inr w''
    \<and> sock w'' = sock w @ ''HTTP/1.1 301 Moved Permanently'' @ crlf
          @ ''Location: '' @ cstr abs_path @ ''/'' @ crlf @ crlf"
proof -
  from pr have w': "w' = printf line w" by (rule parse_True_world)
  have h: "handle e message abs_path0 query0 w =
      Inr (redirect (cstr abs_path @ ''/'') (printf line w))"
    using ex pr ud dir ne slash
    by (simp add: handle_def wbind_def w')
  have b: "4 \<le> wbudget (printf line w)"
    using budget by (simp add: printf_def)
  have sp: "sock (printf line w) = sock w"
    by (simp add: printf_def)
  have "sock (redirect (cstr abs_path @ ''/'') (printf line w)) =
      sock w @ ''HTTP/1.1 301 Moved Permanently'' @ crlf
          @ ''Location: '' @ cstr abs_path @ ''/'' @ crlf @ crlf"
    by (simp add: redirect_sock [OF b] sp)
  with h show ?thesis by simp
qed

lemmas handle_eval = handle_def wbind_def serve_file_def urldecode_def urldecode_loop.simps
  strtol16_def isspace_def hexval_def char_of_def lookup_def strcasecmp_eq_def tolower_def
  example_env_def fresh_world_def printf_def

text \<open>
  Claim C4 on the code. The path \<open>/srv/www/README\<close> of an existing file that is not a
  directory has no dot: \<open>strrchr\<close> returns NULL, \<open>lookup\<close> passes it to
  \<open>strcasecmp\<close>, and the request for \<open>/README\<close> ends in that fault, with the
  request line logged and nothing written to the client, instead of the response 501.
\<close>

theorem lookup_without_dot:
  "lookup ''/srv/www/README'' = Inl NullDeref
   \<and> handle example_env (''GET /README HTTP/1.1'' @ crlf)
        (replicate 8191 NUL) (replicate 8191 NUL) fresh_world
       = Inl (NullDeref, printf (''GET /README HTTP/1.1'' @ crlf) fresh_world)"
  by (simp add: parse_eval handle_eval)


theorem directory_redirect_witness:
  "is_dir example_env (root example_env @ ''/docs'')
   \<and> last ''/docs'' \<noteq> CHR ''/''
   \<and> (\<exists>w''. handle example_env (''GET /docs HTTP/1.1'' @ crlf @ ''Host: x'' @ crlf)
          (replicate 8191 NUL) (replicate 8191 NUL) fresh_world = Inr w''
        \<and> sock w'' = ''HTTP/1.1 301 Moved Permanently'' @ crlf @ ''Location: /docs/'' @ crlf @ crlf)"
proof -
  define message where "message = ''GET /docs HTTP/1.1'' @ crlf @ ''Host: x'' @ crlf"
  define line where "line = ''GET /docs HTTP/1.1'' @ crlf"
  define abs_path where "abs_path = ''/docs'' @ NUL # replicate 8185 NUL"
  have c: "cstr abs_path = ''/docs''"
    by (simp add: abs_path_def cstr_def)
  have ex1: "strstr (cstr message) crlf = Some 18"
    by (simp add: message_def cstr_def crlf_def)
  have ex2: "vla_strncpy (cstr message) (int 18 + 2) = Inr line"
    by (simp add: message_def line_def vla_strncpy_def size_t_of_def strncpy_bytes_def cstr_def
        crlf_def)
  have pr: "parse line (replicate 8191 NUL) (replicate 8191 NUL) (printf line fresh_world) =
      Inr (True, abs_path, replicate 8191 NUL, printf line fresh_world)"
    by (simp add: line_def abs_path_def parse_eval)
  have ud: "urldecode (cstr abs_path) = Inr (''/docs'' @ [NUL])"
    by (simp add: c urldecode_def urldecode_loop.simps)
  have p: "cstr (''/docs'' @ [NUL]) = ''/docs''"
    by (simp add: cstr_def)
  have d1: "access_F example_env (root example_env @ cstr (''/docs'' @ [NUL]))"
    by (simp add: cstr_def example_env_def)
  have d2: "is_dir example_env (root example_env @ cstr (''/docs'' @ [NUL]))"
    by (simp add: cstr_def example_env_def)
  have ne: "cstr abs_path \<noteq> []" by (simp add: c)
  have sl: "last (cstr abs_path) \<noteq> CHR ''/''" by (simp add: c)
  have bu: "4 \<le> wbudget fresh_world" by (simp add: fresh_world_def)
  from directory_redirect [OF ex1 ex2 pr ud d1 d2 ne sl bu]
  obtain w'' where "handle example_env message (replicate 8191 NUL) (replicate 8191 NUL) fresh_world
      = Inr w''"
    and "sock w'' = sock fresh_world @ ''HTTP/1.1 301 Moved Permanently'' @ crlf
          @ ''Location: '' @ cstr abs_path @ ''/'' @ crlf @ crlf"
    by blast
  then have "\<exists>w''. handle example_env (''GET /docs HTTP/1.1'' @ crlf @ ''Host: x'' @ crlf)
          (replicate 8191 NUL) (replicate 8191 NUL) fresh_world = Inr w''
        \<and> sock w'' = ''HTTP/1.1 301 Moved Permanently'' @ crlf @ ''Location: /docs/'' @ crlf @ crlf"
    by (simp add: message_def c fresh_world_def)
  moreover have "is_dir example_env (root example_env @ ''/docs'')"
    by (simp add: cstr_def example_env_def)
  moreover have "last ''/docs'' \<noteq> CHR ''/''" by simp
  ultimately show ?thesis by blast
qed

theorem parse_leaves_query_buffer_witness:
  "CHR ''?'' \<notin> set ''/app.php''
   \<and> parse (''GET /app.php HTTP/1.1'' @ crlf) (replicate 8191 NUL)
        (''stale'' @ NUL # replicate 8185 (CHR ''#'')) fresh_world
       = Inr (True, ''/app.php'' @ NUL # replicate 8182 NUL,
              ''stale'' @ NUL # replicate 8185 (CHR ''#''), fresh_world)
   \<and> cmds (final_world (handle example_env (''GET /app.php HTTP/1.1'' @ crlf @ ''Host: x'' @ crlf)
          (replicate 8191 NUL) (''stale'' @ NUL # replicate 8185 (CHR ''#'')) fresh_world))
       = [''QUERY_STRING='' @ [DQUOTE] @ ''stale'' @ [DQUOTE]
           @ '' REDIRECT_STATUS=200 SCRIPT_FILENAME='' @ [DQUOTE] @ ''/srv/www/app.php''
           @ [DQUOTE] @ '' php-cgi'']"
proof -
  define message where "message = ''GET /app.php HTTP/1.1'' @ crlf @ ''Host: x'' @ crlf"
  define line where "line = ''GET /app.php HTTP/1.1'' @ crlf"
  define abs_path where "abs_path = ''/app.php'' @ NUL # replicate 8182 NUL"
  define query0 where "query0 = ''stale'' @ NUL # replicate 8185 (CHR ''#'')"
  have shape: "line = ''GET '' @ ''/app.php'' @ '' HTTP/1.1'' @ crlf"
    by (simp add: line_def)
  have nq: "CHR ''?'' \<notin> set ''/app.php''" by simp
  have c: "cstr abs_path = ''/app.php''"
    by (simp add: abs_path_def cstr_def)
  have ex1: "strstr (cstr message) crlf = Some 21"
    by (simp add: message_def cstr_def crlf_def)
  have ex2: "vla_strncpy (cstr message) (int 21 + 2) = Inr line"
    by (simp add: message_def line_def vla_strncpy_def size_t_of_def strncpy_bytes_def cstr_def
        crlf_def)
  have pr0: "parse line (replicate 8191 NUL) query0 w = Inr (True, abs_path, query0, w)" for w
    by (simp add: line_def abs_path_def query0_def parse_eval)
  have ud: "urldecode (cstr abs_path) = Inr (''/app.php'' @ [NUL])"
    by (simp add: c urldecode_def urldecode_loop.simps)
  have f1: "access_F example_env (root example_env @ cstr (''/app.php'' @ [NUL]))"
    by (simp add: cstr_def example_env_def)
  have f2: "\<not> is_dir example_env (root example_env @ cstr (''/app.php'' @ [NUL]))"
    by (simp add: cstr_def example_env_def)
  have php: "lookup (root example_env @ cstr (''/app.php'' @ [NUL])) = Inr (Some ''text/x-php'')"
    by (simp add: cstr_def example_env_def lookup_def strcasecmp_eq_def tolower_def)
  have rd: "access_R example_env (root example_env @ cstr (''/app.php'' @ [NUL]))"
    by (simp add: cstr_def example_env_def)
  have nul: "NUL \<in> set query0" by (simp add: query0_def)
  note t = parse_leaves_query_buffer [OF shape nq ex1 ex2 pr0 ud f1 f2 php rd nul]
  from t have "cmds (final_world (handle example_env message (replicate 8191 NUL) query0
        fresh_world)) =
      cmds fresh_world @
          [''QUERY_STRING='' @ [DQUOTE] @ cstr query0 @ [DQUOTE]
           @ '' REDIRECT_STATUS=200 SCRIPT_FILENAME='' @ [DQUOTE]
           @ root example_env @ cstr (''/app.php'' @ [NUL]) @ [DQUOTE] @ '' php-cgi'']"
    by (rule conjunct2 [THEN conjunct2, THEN conjunct2])
  then have a: "cmds (final_world (handle example_env
          (''GET /app.php HTTP/1.1'' @ crlf @ ''Host: x'' @ crlf)
          (replicate 8191 NUL) (''stale'' @ NUL # replicate 8185 (CHR ''#'')) fresh_world))
       = [''QUERY_STRING='' @ [DQUOTE] @ ''stale'' @ [DQUOTE]
           @ '' REDIRECT_STATUS=200 SCRIPT_FILENAME='' @ [DQUOTE] @ ''/srv/www/app.php''
           @ [DQUOTE] @ '' php-cgi'']"
    by (simp add: message_def query0_def cstr_def fresh_world_def example_env_def)
  have b: "parse (''GET /app.php HTTP/1.1'' @ crlf) (replicate 8191 NUL)
        (''stale'' @ NUL # replicate 8185 (CHR ''#'')) fresh_world
       = Inr (True, ''/app.php'' @ NUL # replicate 8182 NUL,
              ''stale'' @ NUL # replicate 8185 (CHR ''#''), fresh_world)"
    using pr0 [of fresh_world] by (simp add: line_def abs_path_def query0_def)
  from nq b a show ?thesis by blast
qed

section \<open>Properties of load and interpret\<close>

lemma size_t_of_minus_one: "size_t_of (- 1) = 2 ^ 64 - 1"
  by (simp add: size_t_of_def)

lemma load_Pipe:
  "load (Pipe out) = (if out = [] then Inr ([], 2 ^ 64 - 1) else Inl OutOfBounds)"
  by (auto simp: load_def size_t_of_minus_one Let_def min_def split: if_splits)

lemma load_RegularFile:
  "length bs + 1 < 2 ^ 64 \<Longrightarrow> load (RegularFile bs) = Inr (bs, length bs)"
  by (simp add: load_def size_t_of_def Let_def nat_mod_distrib)

lemma interpret_php_Pipe:
  "access_R e path \<Longrightarrow> popen_r e (php_command path query) = Some out \<Longrightarrow>
   interpret_php e path query w =
     Inl (OutOfBounds, w\<lparr>cmds := cmds w @ [php_command path query]\<rparr>)"
  by (simp add: interpret_php_def wbind_def load_Pipe)

text \<open>
  Claim C6 on the code. \<open>interpret\<close> reads the output of the interpreter with \<open>load\<close>,
  and the stream is a pipe: \<open>ftell\<close> returns -1, so \<open>load\<close> sets the length to
  \<open>2^64 - 1\<close>, allocates \<open>(2^64 - 1 + 1) mod 2^64 = 0\<close> bytes, and \<open>fread\<close> writes
  the output past that block. For the output \<open>Content-Type: text/plain\<close>, blank line,
  \<open>hello\<close> the request ends in this fault once the command has been run: the split
  that the claim describes is made on memory that \<open>load\<close> does not own, with a length
  that is not the number of captured bytes, so no body of \<open>length - (k + 4)\<close> captured
  bytes is forwarded.
\<close>

theorem interpret_php_load_on_pipe:
  "ftell_end (Pipe out) = - 1
   \<and> size_t_of (ftell_end (Pipe out)) = 2 ^ 64 - 1
   \<and> (size_t_of (ftell_end (Pipe out)) + 1) mod 2 ^ 64 = 0
   \<and> load (Pipe (''Content-Type: text/plain'' @ crlf @ crlf @ ''hello'')) = Inl OutOfBounds
   \<and> popen_r example_env (php_command ''/srv/www/app.php'' ''id=7'')
       = Some (''Content-Type: text/plain'' @ crlf @ crlf @ ''hello'')
   \<and> interpret_php example_env ''/srv/www/app.php'' ''id=7'' fresh_world
       = Inl (OutOfBounds,
              fresh_world\<lparr>cmds := [php_command ''/srv/www/app.php'' ''id=7'']\<rparr>)"
proof -
  have rd: "access_R example_env ''/srv/www/app.php''"
    by (simp add: example_env_def)
  have po: "popen_r example_env (php_command ''/srv/www/app.php'' ''id=7'')
       = Some (''Content-Type: text/plain'' @ crlf @ crlf @ ''hello'')"
    by (simp add: example_env_def)
  have i: "interpret_php example_env ''/srv/www/app.php'' ''id=7'' fresh_world
       = Inl (OutOfBounds,
              fresh_world\<lparr>cmds := [php_command ''/srv/www/app.php'' ''id=7'']\<rparr>)"
    using interpret_php_Pipe [OF rd po, of fresh_world] by (simp add: fresh_world_def)
  have l: "load (Pipe (''Content-Type: text/plain'' @ crlf @ crlf @ ''hello'')) = Inl OutOfBounds"
    by (simp add: load_Pipe)
  from po i l show ?thesis
    by (simp add: size_t_of_minus_one)
qed

section \<open>What every response carries\<close>

lemma starts_with_append: "starts_with (xs @ ys) xs"
  by (induction xs) simp_all

lemma sint_ucast_16_32: "sint (ucast (c :: 16 word) :: 32 word) = uint c"
proof -
  have b: "uint c < 2 ^ 16"
    using uint_bounded [of c] by simp
  have "uint (ucast c :: 32 word) = take_bit 32 (uint c)"
    by (simp add: unsigned_ucast_eq)
  also have "\<dots> = uint c"
    using b by (simp add: take_bit_int_eq_self)
  finally have u: "uint (ucast c :: 32 word) = uint c" .
  have "sint (ucast c :: 32 word) = signed_take_bit 31 (uint (ucast c :: 32 word))"
    by (simp add: sint_uint)
  also have "\<dots> = uint c"
    unfolding u
  proof (rule signed_take_bit_int_eq_self)
    show "- (2 ^ 31) \<le> uint c" by (rule order_trans [where y = 0]) simp_all
    show "uint c < 2 ^ 31" by (rule less_trans [OF b]) simp
  qed
  finally show ?thesis .
qed

lemma respond_sock_prefix:
  assumes r: "reason (ucast code) = Some phrase"
  shows "sock (respond code headers body len w) = sock w
    \<or> starts_with (sock (respond code headers body len w))
         (sock w @ ''HTTP/1.1 '' @ show_int (sint code) @ '' '' @ phrase @ crlf)"
proof -
  define st where "st = ''HTTP/1.1 '' @ show_int (sint code) @ '' '' @ phrase @ crlf"
  have pre: "starts_with ((sock w @ st) @ rest) (sock w @ st)" for rest
    by (rule starts_with_append)
  consider "wbudget w = 0" | "wbudget w = 1" | "wbudget w = 2" | "wbudget w = 3" | "4 \<le> wbudget w"
    by arith
  then show ?thesis
  proof cases
    case 1
    then have "sock (respond code headers body len w) = sock w"
      by (simp add: respond_def r sock_write_def)
    then show ?thesis by simp
  next
    case 2
    then have "sock (respond code headers body len w) = (sock w @ st) @ []"
      by (simp add: respond_def r sock_write_def st_def)
    then have "starts_with (sock (respond code headers body len w)) (sock w @ st)"
      by (simp only: pre)
    then show ?thesis unfolding st_def by blast
  next
    case 3
    then have "sock (respond code headers body len w) = (sock w @ st) @ headers"
      by (simp add: respond_def r sock_write_def st_def)
    then have "starts_with (sock (respond code headers body len w)) (sock w @ st)"
      by (simp only: pre)
    then show ?thesis unfolding st_def by blast
  next
    case 4
    then have "sock (respond code headers body len w) = (sock w @ st) @ headers @ crlf"
      by (simp add: respond_def r sock_write_def st_def)
    then have "starts_with (sock (respond code headers body len w)) (sock w @ st)"
      by (simp only: pre)
    then show ?thesis unfolding st_def by blast
  next
    case 5
    then have "sock (respond code headers body len w) =
        (sock w @ st) @ headers @ crlf @ take len body"
      by (simp add: respond_def r sock_write_def printf_def st_def)
    then have "starts_with (sock (respond code headers body len w)) (sock w @ st)"
      by (simp only: pre)
    then show ?thesis unfolding st_def by blast
  qed
qed

lemma in_closed_set: "c \<in> set closed_set \<longleftrightarrow> reason c \<noteq> None"
  by (simp add: closed_set_def reason_def)

lemma carries_same: "sock w' = sock w \<Longrightarrow> carries_closed_status w w'"
  by (simp add: carries_closed_status_def)

lemma carries_from: "sock w1 = sock w \<Longrightarrow> carries_closed_status w1 w' \<Longrightarrow> carries_closed_status w w'"
  by (simp add: carries_closed_status_def)

lemma carries_respond:
  "carries_closed_status w (respond (ucast (c :: 16 word)) headers body len w)"
proof (cases "reason c")
  case None
  then have "respond (ucast c) headers body len w = w"
    by (simp add: respond_def ucast_16_32_16)
  then show ?thesis by (simp add: carries_same)
next
  case (Some phrase)
  then have r: "reason (ucast (ucast c :: 32 word)) = Some phrase"
    by (simp add: ucast_16_32_16)
  from Some have m: "c \<in> set closed_set"
    by (simp add: in_closed_set)
  have sl: "status_line c = ''HTTP/1.1 '' @ show_int (sint (ucast c :: 32 word)) @ '' '' @ phrase @ crlf"
    by (simp add: status_line_def Some sint_ucast_16_32)
  from respond_sock_prefix [OF r, of headers body len w]
  have "sock (respond (ucast c) headers body len w) = sock w
    \<or> starts_with (sock (respond (ucast c) headers body len w)) (sock w @ status_line c)"
    by (simp only: sl)
  with m show ?thesis
    unfolding carries_closed_status_def list_ex_iff by blast
qed

lemma carries_respond_200: "carries_closed_status w (respond 200 headers body len w)"
  using carries_respond [of w 200 headers body len] by simp

lemma carries_respond_301: "carries_closed_status w (respond 301 headers body len w)"
  using carries_respond [of w 301 headers body len] by simp

lemma carries_error: "carries_closed_status w (error c w)"
  by (simp add: error_def carries_same carries_respond Let_def split: option.splits)

lemma carries_redirect: "carries_closed_status w (redirect uri w)"
  by (simp add: redirect_def carries_respond_301)

lemma carries_list_dir: "carries_closed_status w (list_dir e path w)"
  by (simp add: list_dir_def Let_def carries_error carries_same carries_respond_200)

lemma carries_transfer: "carries_closed_status w (final_world (transfer e path type w))"
  by (simp add: transfer_def wbind_def final_world_def carries_error carries_same
      carries_respond_200 split: option.splits sum.splits prod.splits)

lemma carries_interpret_php: "carries_closed_status w (final_world (interpret_php e path query w))"
proof -
  define w1 where "w1 = w\<lparr>cmds := cmds w @ [php_command path query]\<rparr>"
  have s: "sock w1 = sock w" by (simp add: w1_def)
  have a: "carries_closed_status w (error c w1)" for c
    using s carries_error by (rule carries_from)
  have b: "carries_closed_status w (respond 200 headers body len w1)" for headers body len
    using s carries_respond_200 by (rule carries_from)
  have c: "carries_closed_status w w1"
    using s by (rule carries_same)
  show ?thesis
    using a b c
    by (simp add: interpret_php_def wbind_def final_world_def Let_def carries_error
        w1_def [symmetric] split: option.splits sum.splits prod.splits)
qed

lemma carries_serve_file: "carries_closed_status w (final_world (serve_file e path query w))"
proof -
  have x: "carries_closed_status w (final_world (Inl (f, w)))" for f
    by (simp add: final_world_def carries_same)
  have y: "carries_closed_status w (final_world (Inr (error c w)))" for c
    by (simp add: final_world_def carries_error)
  show ?thesis
    by (simp add: serve_file_def wbind_def x y carries_interpret_php carries_transfer
        split: option.splits sum.splits)
qed

lemma carries_parse:
  "parse line abs_path0 query0 w = Inr (ok, abs_path, query, w') \<Longrightarrow> carries_closed_status w w'"
  unfolding parse_def fbind_def Let_def
  by (auto simp: carries_error carries_same split: option.splits sum.splits if_splits)


lemma final_world_simps:
  "final_world (Inr w) = w" "final_world (Inl (f, w)) = w"
  by (simp_all add: final_world_def)

lemma carries_handle:
  "carries_closed_status w (final_world (handle e message abs_path0 query0 w))"
proof (cases "strstr (cstr message) crlf")
  case None
  then show ?thesis
    by (simp add: handle_def final_world_simps carries_error)
next
  case (Some needle)
  show ?thesis
  proof (cases "vla_strncpy (cstr message) (int needle + 2)")
    case (Inl f)
    with Some show ?thesis
      by (simp add: handle_def wbind_def final_world_simps carries_same)
  next
    case (Inr line)
    define w1 where "w1 = printf line w"
    have s1: "sock w1 = sock w" by (simp add: w1_def printf_def)
    show ?thesis
    proof (cases "parse line abs_path0 query0 w1")
      case (Inl f)
      with Some Inr show ?thesis
        by (simp add: handle_def wbind_def final_world_simps carries_same w1_def [symmetric] s1)
    next
      case pr: (Inr r)
      obtain ok abs_path query w2 where r: "r = (ok, abs_path, query, w2)"
        by (cases r) auto
      from pr r have p: "parse line abs_path0 query0 w1 = Inr (ok, abs_path, query, w2)"
        by simp
      show ?thesis
      proof (cases ok)
        case False
        from p have "carries_closed_status w1 w2" by (rule carries_parse)
        with s1 have "carries_closed_status w w2" by (rule carries_from)
        with Some Inr p False show ?thesis
          by (simp add: handle_def wbind_def final_world_simps w1_def [symmetric])
      next
        case True
        with p have w2: "w2 = w1" by (simp add: parse_True_world)
        have lift: "carries_closed_status w w'" if "carries_closed_status w1 w'" for w'
          using s1 that by (rule carries_from)
        have "carries_closed_status w1
          (final_world
            (wbind w1 (urldecode (cstr abs_path)) (\<lambda>p.
              let path = root e @ cstr p in
              if \<not> access_F e path then Inr (error 404 w1)
              else if is_dir e path then
                (if cstr abs_path = [] then Inl (OutOfBounds, w1)
                 else if last (cstr abs_path) \<noteq> CHR ''/'' then
                   Inr (redirect (cstr abs_path @ ''/'') w1)
                 else
                   (case indexes e path of
                      Some index \<Rightarrow> serve_file e index query w1
                    | None \<Rightarrow> Inr (list_dir e path w1)))
              else serve_file e path query w1)))"
          by (simp add: wbind_def Let_def final_world_simps carries_same carries_error
              carries_redirect carries_list_dir carries_serve_file
              split: sum.splits option.splits)
        then show ?thesis
          using Some Inr p True
          by (simp add: handle_def wbind_def w1_def [symmetric] w2 lift)
      qed
    qed
  qed
qed


text \<open>
  Claim C8, amended. Every response that the server writes on the connection carries a
  status code of the closed set: whatever the loop body of \<open>main\<close> writes to the socket
  for a request begins with \<open>HTTP/1.1\<close>, a code of the set and the phrase that
  \<open>reason\<close> returns for it, and so does what \<open>error\<close> writes. \<open>reason\<close> returns a
  phrase exactly for the eleven codes of the set. When it returns one, what \<open>respond\<close>
  writes begins with the status line made of the \<open>int\<close> code and that phrase. For
  every code outside the set, \<open>error\<close> leaves the connection and the log as they were,
  and so does \<open>respond\<close> for every such code in the range of \<open>unsigned short\<close>; for
  an \<open>int\<close> code in general, \<open>respond\<close> writes and logs nothing whenever the code
  converted to \<open>unsigned short\<close> (the code modulo 65536) is outside the set.
\<close>

theorem respond_error_closed_set:
  "(reason c \<noteq> None \<longleftrightarrow> c \<in> {200, 301, 400, 403, 404, 405, 414, 418, 500, 501, 505})
   \<and> (c \<notin> {200, 301, 400, 403, 404, 405, 414, 418, 500, 501, 505} \<longrightarrow>
        error c w = w \<and> respond (ucast c) headers body len w = w)
   \<and> ((ucast code :: 16 word) \<notin> {200, 301, 400, 403, 404, 405, 414, 418, 500, 501, 505} \<longrightarrow>
        respond code headers body len w = w)
   \<and> (\<forall>phrase. reason (ucast code) = Some phrase \<longrightarrow>
        sock (respond code headers body len w) = sock w
        \<or> starts_with (sock (respond code headers body len w))
             (sock w @ ''HTTP/1.1 '' @ show_int (sint code) @ '' '' @ phrase @ crlf))
   \<and> carries_closed_status w (error c w)
   \<and> carries_closed_status w (final_world (handle e message abs_path0 query0 w))"
proof -
  have r: "reason c = None" if "c \<notin> {200, 301, 400, 403, 404, 405, 414, 418, 500, 501, 505}" for c
    using that reason_Some_iff [of c] by blast
  have a: "error c w = w \<and> respond (ucast c) headers body len w = w"
    if "c \<notin> {200, 301, 400, 403, 404, 405, 414, 418, 500, 501, 505}"
    using r [OF that] by (simp add: error_unknown respond_unknown ucast_16_32_16)
  have b: "respond code headers body len w = w"
    if "(ucast code :: 16 word) \<notin> {200, 301, 400, 403, 404, 405, 414, 418, 500, 501, 505}"
    using r [OF that] by (rule respond_unknown)
  have c: "\<forall>phrase. reason (ucast code) = Some phrase \<longrightarrow>
        sock (respond code headers body len w) = sock w
        \<or> starts_with (sock (respond code headers body len w))
             (sock w @ ''HTTP/1.1 '' @ show_int (sint code) @ '' '' @ phrase @ crlf)"
    using respond_sock_prefix by blast
  note d = carries_error [of w c]
  note e = carries_handle [of w e message abs_path0 query0]
  from reason_Some_iff [of c] a b c d e show ?thesis by blast
qed

theorem respond_error_closed_set_witness:
  "(999 :: 16 word) \<notin> {200, 301, 400, 403, 404, 405, 414, 418, 500, 501, 505}
   \<and> (ucast (66535 :: 32 word) :: 16 word) \<notin> {200, 301, 400, 403, 404, 405, 414, 418, 500, 501, 505}
   \<and> reason 999 = None
   \<and> error 999 fresh_world = fresh_world
   \<and> respond 999 ''X: y'' ''body'' 4 fresh_world = fresh_world
   \<and> respond 66535 ''X: y'' ''body'' 4 fresh_world = fresh_world
   \<and> reason (ucast (404 :: 32 word)) = Some ''Not Found''
   \<and> sock (respond 404 ''X: y'' ''body'' 4 fresh_world) \<noteq> sock fresh_world
   \<and> starts_with (sock (respond 404 ''X: y'' ''body'' 4 fresh_world))
        (''HTTP/1.1 404 Not Found'' @ crlf)
   \<and> carries_closed_status fresh_world
        (final_world (handle example_env (''GET /docs HTTP/1.1'' @ crlf @ ''Host: x'' @ crlf)
           (replicate 8191 NUL) (replicate 8191 NUL) fresh_world))"
proof -
  have h1: "(999 :: 16 word) \<notin> {200, 301, 400, 403, 404, 405, 414, 418, 500, 501, 505}"
    by simp
  have h2: "(ucast (66535 :: 32 word) :: 16 word) \<notin> {200, 301, 400, 403, 404, 405, 414, 418, 500, 501, 505}"
    by simp
  have h3: "reason (ucast (404 :: 32 word)) = Some ''Not Found''"
    by (simp add: reason_def)
  note t1 = respond_error_closed_set [of 999 fresh_world "''X: y''" "''body''" 4 66535 example_env
      "''GET /docs HTTP/1.1'' @ crlf @ ''Host: x'' @ crlf" "replicate 8191 NUL" "replicate 8191 NUL"]
  note t2 = respond_error_closed_set [of 999 fresh_world "''X: y''" "''body''" 4 404 example_env
      "''GET /docs HTTP/1.1'' @ crlf @ ''Host: x'' @ crlf" "replicate 8191 NUL" "replicate 8191 NUL"]
  from t1 h1 have r: "reason 999 = None" by blast
  from t1 h1 have e: "error 999 fresh_world = fresh_world" by blast
  from t1 h1 have "respond (ucast (999 :: 16 word)) ''X: y'' ''body'' 4 fresh_world = fresh_world"
    by blast
  then have p: "respond 999 ''X: y'' ''body'' 4 fresh_world = fresh_world" by simp
  from t1 h2 have q: "respond 66535 ''X: y'' ''body'' 4 fresh_world = fresh_world" by blast
  have ne: "sock (respond 404 ''X: y'' ''body'' 4 fresh_world) \<noteq> sock fresh_world"
    by (simp add: respond_def reason_def sock_write_def printf_def fresh_world_def)
  note t24 = t2 [THEN conjunct2, THEN conjunct2, THEN conjunct2, THEN conjunct1, rule_format, OF h3]
  from t24 ne have "starts_with (sock (respond 404 ''X: y'' ''body'' 4 fresh_world))
      (sock fresh_world @ ''HTTP/1.1 '' @ show_int (sint (404 :: 32 word)) @ '' '' @ ''Not Found'' @ crlf)"
    by blast
  then have s: "starts_with (sock (respond 404 ''X: y'' ''body'' 4 fresh_world))
        (''HTTP/1.1 404 Not Found'' @ crlf)"
    by (simp add: fresh_world_def show_int_def digits.simps)
  note k = t1 [THEN conjunct2, THEN conjunct2, THEN conjunct2, THEN conjunct2, THEN conjunct2]
  from h1 h2 r e p q h3 ne s k show ?thesis by blast
qed

section \<open>Properties of urldecode\<close>

lemma length_pdecode: "length (pdecode s) \<le> length s"
  by (induction s rule: pdecode.induct) (auto simp: le_SucI)

lemma cstr_octet: "a \<noteq> NUL \<Longrightarrow> b \<noteq> NUL \<Longrightarrow> cstr [a, b, NUL] = [a, b]"
  by (simp add: cstr_def)

lemma drop_three:
  "i + 2 < length s \<Longrightarrow> drop i s = s ! i # s ! (i + 1) # s ! (i + 2) # drop (i + 2 + 1) s"
proof -
  assume a: "i + 2 < length s"
  then have "drop i s = s ! i # drop (Suc i) s"
    by (simp add: Cons_nth_drop_Suc)
  also from a have "drop (Suc i) s = s ! Suc i # drop (Suc (Suc i)) s"
    by (simp add: Cons_nth_drop_Suc)
  also from a have "drop (Suc (Suc i)) s = s ! Suc (Suc i) # drop (Suc (Suc (Suc i))) s"
    by (simp add: Cons_nth_drop_Suc)
  finally show ?thesis by simp
qed

lemma store_step:
  "j < length t \<Longrightarrow>
   take (j + 1) (t[j := c]) @ xs @ drop (j + 1 + length xs) (t[j := c]) =
   take j t @ (c # xs) @ drop (j + length (c # xs)) t"
  by (simp add: take_Suc_conv_app_nth)


lemma urldecode_loop_done: "\<not> i < length s \<Longrightarrow> urldecode_loop s i j t = Inr t"
  by (subst urldecode_loop.simps) simp

lemma urldecode_loop_percent:
  "i + 2 < length s \<Longrightarrow> s ! i = CHR ''%'' \<Longrightarrow> j < length t \<Longrightarrow>
   urldecode_loop s i j t =
     urldecode_loop s (i + 2 + 1) (j + 1)
       (t[j := char_of (strtol16 (cstr [s ! (i + 1), s ! (i + 2), NUL]))])"
  by (subst urldecode_loop.simps) simp

lemma urldecode_loop_plus:
  "i < length s \<Longrightarrow> s ! i = CHR ''+'' \<Longrightarrow> j < length t \<Longrightarrow>
   urldecode_loop s i j t = urldecode_loop s (i + 1) (j + 1) (t[j := CHR '' ''])"
  by (subst urldecode_loop.simps) simp

lemma urldecode_loop_other:
  "i < length s \<Longrightarrow> \<not> (s ! i = CHR ''%'' \<and> i + 2 < length s) \<Longrightarrow> s ! i \<noteq> CHR ''+'' \<Longrightarrow>
   j < length t \<Longrightarrow>
   urldecode_loop s i j t = urldecode_loop s (i + 1) (j + 1) (t[j := s ! i])"
  by (subst urldecode_loop.simps) auto


lemma urldecode_loop_pdecode:
  "NUL \<notin> set s \<Longrightarrow> i \<le> length s \<Longrightarrow> j + (length s - i) < length t \<Longrightarrow>
    urldecode_loop s i j t =
      Inr (take j t @ pdecode (drop i s) @ drop (j + length (pdecode (drop i s))) t)"
proof (induction "length s - i" arbitrary: i j t rule: less_induct)
  case less
  note nul = less.prems(1) and il = less.prems(2) and room = less.prems(3)
  show ?case
  proof (cases "i < length s")
    case False
    with il show ?thesis
      by (simp add: urldecode_loop_done)
  next
    case True
    then have d: "drop i s = s ! i # drop (i + 1) s"
      by (simp add: Cons_nth_drop_Suc)
    from True room have j: "j < length t" by simp
    show ?thesis
    proof (cases "s ! i = CHR ''%'' \<and> i + 2 < length s")
      case pc: True
      then have i2: "i + 2 < length s" and pct: "s ! i = CHR ''%''" by simp_all
      note d3 = drop_three [OF i2]
      from i2 have "s ! (i + 1) \<in> set s" "s ! (i + 2) \<in> set s"
        by simp_all
      with nul have nn: "s ! (i + 1) \<noteq> NUL" "s ! (i + 2) \<noteq> NUL"
        by auto
      define c where "c = char_of (strtol16 (cstr [s ! (i + 1), s ! (i + 2), NUL]))"
      have c': "c = char_of (strtol16 [s ! (i + 1), s ! (i + 2)])"
        by (simp only: c_def cstr_octet [OF nn])
      have pd: "pdecode (drop i s) = c # pdecode (drop (i + 2 + 1) s)"
        by (simp add: d3 pct c')
      have "urldecode_loop s i j t = urldecode_loop s (i + 2 + 1) (j + 1) (t[j := c])"
        unfolding c_def by (rule urldecode_loop_percent [OF i2 pct j])
      also have "\<dots> = Inr (take (j + 1) (t[j := c]) @ pdecode (drop (i + 2 + 1) s)
            @ drop (j + 1 + length (pdecode (drop (i + 2 + 1) s))) (t[j := c]))"
        using i2 room nul by (intro less.hyps) simp_all
      also have "\<dots> = Inr (take j t @ pdecode (drop i s) @ drop (j + length (pdecode (drop i s))) t)"
        unfolding pd by (simp only: store_step [OF j])
      finally show ?thesis .
    next
      case npc: False
      show ?thesis
      proof (cases "s ! i = CHR ''+''")
        case plus: True
        have pd: "pdecode (drop i s) = CHR '' '' # pdecode (drop (i + 1) s)"
          using plus by (simp add: d)
        have "urldecode_loop s i j t = urldecode_loop s (i + 1) (j + 1) (t[j := CHR '' ''])"
          by (rule urldecode_loop_plus [OF True plus j])
        also have "\<dots> = Inr (take (j + 1) (t[j := CHR '' '']) @ pdecode (drop (i + 1) s)
            @ drop (j + 1 + length (pdecode (drop (i + 1) s))) (t[j := CHR '' '']))"
          using True room nul by (intro less.hyps) simp_all
        also have "\<dots> = Inr (take j t @ pdecode (drop i s) @ drop (j + length (pdecode (drop i s))) t)"
          unfolding pd by (simp only: store_step [OF j])
        finally show ?thesis .
      next
        case other: False
        have "\<not> (s ! i = CHR ''%'' \<and> 2 \<le> length (drop (i + 1) s))"
          using npc by auto
        then have pd: "pdecode (drop i s) = s ! i # pdecode (drop (i + 1) s)"
          using other by (auto simp: d)
        have "urldecode_loop s i j t = urldecode_loop s (i + 1) (j + 1) (t[j := s ! i])"
          by (rule urldecode_loop_other [OF True npc other j])
        also have "\<dots> = Inr (take (j + 1) (t[j := s ! i]) @ pdecode (drop (i + 1) s)
            @ drop (j + 1 + length (pdecode (drop (i + 1) s))) (t[j := s ! i]))"
          using True room nul by (intro less.hyps) simp_all
        also have "\<dots> = Inr (take j t @ pdecode (drop i s) @ drop (j + length (pdecode (drop i s))) t)"
          unfolding pd by (simp only: store_step [OF j])
        finally show ?thesis .
      qed
    qed
  qed
qed

lemma urldecode_pdecode:
  "NUL \<notin> set s \<Longrightarrow>
   urldecode s = Inr (pdecode s @ replicate (length s + 1 - length (pdecode s)) NUL)"
  by (simp add: urldecode_def urldecode_loop_pdecode del: replicate.simps)


lemma hexval_SomeD:
  "hexval c = Some d \<Longrightarrow> 0 \<le> d \<and> d \<le> 15 \<and> \<not> isspace c \<and> c \<noteq> CHR ''-'' \<and> c \<noteq> CHR ''+''"
  by (simp add: hexval_def isspace_def split: if_splits)

lemma strtol16_hex_pair:
  assumes "hexval x = Some dx" and "hexval y = Some dy"
  shows "strtol16 [x, y] = 16 * dx + dy"
proof -
  note hx = hexval_SomeD [OF assms(1)] and hy = hexval_SomeD [OF assms(2)]
  from hx hy have "16 * dx + dy \<le> 2 ^ 63 - 1" by simp
  then show ?thesis
    using hx assms by (simp add: strtol16_def)
qed

lemma cstr_padding: "cstr (xs @ replicate k NUL) = cstr xs"
  by (induction xs) (auto simp: cstr_def takeWhile_replicate)


lemmas urldecode_eval = urldecode_def urldecode_loop.simps strtol16_def isspace_def hexval_def
  char_of_def cstr_def

text \<open>
  Claim C3, as stated, fails where it says that a \<open>%\<close> not followed by two hexadecimal
  digits is passed through: \<open>urldecode\<close> does not look at what the two bytes are. On
  \<open>%4z\<close> it hands \<open>4z\<close> to \<open>strtol\<close>, which reads 4, and the result is the single
  byte 0x04.
\<close>

theorem urldecode_unchecked_octet_counterexample:
  "hexval (CHR ''z'') = None
   \<and> urldecode ''%4z'' = Inr [CHR 0x04, NUL, NUL, NUL]
   \<and> cstr [CHR 0x04, NUL, NUL, NUL] = [CHR 0x04]
   \<and> [CHR 0x04] \<noteq> ''%4z''"
  by (simp add: urldecode_eval)

text \<open>
  Claim C3, amended. For every input string (a C string: it holds no NUL), \<open>urldecode\<close>
  returns the buffer that holds
  \<open>pdecode s\<close> followed by zero bytes, so it never reads or writes out of bounds and its
  output is at most as long as its input. \<open>pdecode\<close> replaces every \<open>%\<close> that has two
  bytes after it, together with these two bytes, by the byte that \<open>strtol\<close> reads
  from them in base 16, which is \<open>0xXY\<close> when both are hexadecimal digits; it maps
  \<open>+\<close> to a space and copies every other byte, also a \<open>%\<close> with fewer than two bytes
  after it. \<open>urldecode\<close> maps \<open>%41%20B+C\<close> to \<open>A B C\<close>.
\<close>

theorem urldecode_decodes:
  assumes "NUL \<notin> set s"
  shows "urldecode s = Inr (pdecode s @ replicate (length s + 1 - length (pdecode s)) NUL)
    \<and> length (pdecode s) \<le> length s
    \<and> length (cstr (pdecode s @ replicate (length s + 1 - length (pdecode s)) NUL)) \<le> length s
    \<and> (\<forall>x y r. pdecode (CHR ''%'' # x # y # r) = char_of (strtol16 [x, y]) # pdecode r)
    \<and> (\<forall>x y dx dy. hexval x = Some dx \<and> hexval y = Some dy \<longrightarrow>
          strtol16 [x, y] = 16 * dx + dy)
    \<and> (\<forall>r. pdecode (CHR ''+'' # r) = CHR '' '' # pdecode r)
    \<and> (\<forall>c r. c \<noteq> CHR ''%'' \<and> c \<noteq> CHR ''+'' \<longrightarrow> pdecode (c # r) = c # pdecode r)
    \<and> pdecode ''%'' = ''%''
    \<and> (\<forall>x. pdecode [CHR ''%'', x] = CHR ''%'' # pdecode [x])
    \<and> urldecode ''%41%20B+C'' = Inr (''A B C'' @ [NUL, NUL, NUL, NUL, NUL])"
proof -
  have a: "urldecode s = Inr (pdecode s @ replicate (length s + 1 - length (pdecode s)) NUL)"
    using assms by (rule urldecode_pdecode)
  have b: "length (pdecode s) \<le> length s"
    by (rule length_pdecode)
  have "length (cstr (pdecode s)) \<le> length (pdecode s)"
    by (simp add: cstr_def length_takeWhile_le)
  with b have c: "length (cstr (pdecode s @ replicate (length s + 1 - length (pdecode s)) NUL))
      \<le> length s"
    by (simp only: cstr_padding)
  have d: "\<forall>x y r. pdecode (CHR ''%'' # x # y # r) = char_of (strtol16 [x, y]) # pdecode r"
    by simp
  have e: "\<forall>x y dx dy. hexval x = Some dx \<and> hexval y = Some dy \<longrightarrow>
          strtol16 [x, y] = 16 * dx + dy"
    by (simp add: strtol16_hex_pair)
  have f: "\<forall>r. pdecode (CHR ''+'' # r) = CHR '' '' # pdecode r"
    by simp
  have g: "\<forall>c r. c \<noteq> CHR ''%'' \<and> c \<noteq> CHR ''+'' \<longrightarrow> pdecode (c # r) = c # pdecode r"
    by simp
  have h: "pdecode ''%'' = ''%''" by simp
  have i: "\<forall>x. pdecode [CHR ''%'', x] = CHR ''%'' # pdecode [x]" by simp
  have j: "urldecode ''%41%20B+C'' = Inr (''A B C'' @ [NUL, NUL, NUL, NUL, NUL])"
    by (simp add: urldecode_eval)
  from a b c d e f g h i j show ?thesis by blast
qed

theorem urldecode_decodes_witness:
  "NUL \<notin> set ''a%2Fb+%''
   \<and> urldecode ''a%2Fb+%'' = Inr (''a/b %'' @ [NUL, NUL, NUL])
   \<and> hexval (CHR ''2'') = Some 2 \<and> hexval (CHR ''F'') = Some 15
   \<and> strtol16 ''2F'' = 16 * 2 + 15
   \<and> CHR ''a'' \<noteq> CHR ''%'' \<and> CHR ''a'' \<noteq> CHR ''+''
   \<and> pdecode ''ab'' = CHR ''a'' # pdecode ''b''"
proof -
  have n: "NUL \<notin> set ''a%2Fb+%''" by simp
  note t = urldecode_decodes [OF n]
  note t1 = t [THEN conjunct1]
  note t5 = t [THEN conjunct2, THEN conjunct2, THEN conjunct2, THEN conjunct2, THEN conjunct1]
  note t7 = t [THEN conjunct2, THEN conjunct2, THEN conjunct2, THEN conjunct2, THEN conjunct2,
    THEN conjunct2, THEN conjunct1]
  have p: "pdecode ''a%2Fb+%'' = ''a/b %''"
    by (simp add: strtol16_def isspace_def hexval_def char_of_def)
  from t1 have "urldecode ''a%2Fb+%'' =
      Inr (''a/b %'' @ replicate (length ''a%2Fb+%'' + 1 - length ''a/b %'') NUL)"
    by (simp only: p)
  then have u: "urldecode ''a%2Fb+%'' = Inr (''a/b %'' @ [NUL, NUL, NUL])"
    by simp
  have h1: "hexval (CHR ''2'') = Some 2" and h2: "hexval (CHR ''F'') = Some 15"
    by (simp_all add: hexval_def)
  from t5 [rule_format, of "CHR ''2''" 2 "CHR ''F''" 15] h1 h2
  have s: "strtol16 ''2F'' = 16 * 2 + 15" by simp
  have c: "CHR ''a'' \<noteq> CHR ''%'' \<and> CHR ''a'' \<noteq> CHR ''+''" by simp
  from t7 [rule_format, of "CHR ''a''" "''b''"] c
  have q: "pdecode ''ab'' = CHR ''a'' # pdecode ''b''" by simp
  from n u h1 h2 s c q show ?thesis by simp
qed


section \<open>Properties of request\<close>

lemma scan_fields_counter: "snd (scan_fields message haystack nfields) = nfields"
proof (induction message haystack nfields rule: scan_fields.induct)
  case (1 message haystack nfields)
  then show ?case
    by (subst scan_fields.simps) (simp split: option.splits)
qed

lemma replicate_51:
  "replicate 51 x =
     [x, x, x, x, x, x, x, x, x, x, x, x, x, x, x, x, x, x, x, x, x, x, x, x, x, x, x, x, x, x,
      x, x, x, x, x, x, x, x, x, x, x, x, x, x, x, x, x, x, x, x, x]"
  by (simp add: eval_nat_numeral)

lemmas request_eval = request_def LimitRequestLine_def LimitRequestFields_def
  LimitRequestFieldSize_def strstr_at_def cstr_def crlf_def request_valid_def scan_fields.simps
  byte_at_def

text \<open>
  Claim C2 on the code. The loop over the header fields returns the counter \<open>fields\<close>
  as it received it, so the test against \<open>LimitRequestFields\<close> compares 0 with 50. A
  request with 51 header fields, read in one call of \<open>read\<close>, is accepted: \<open>request\<close>
  returns true with the message.
\<close>

theorem request_accepts_51_fields:
  "snd (scan_fields message haystack 0) = 0
   \<and> LimitRequestFields < length (replicate 51 (''A: b'' @ crlf))
   \<and> request [RdBytes (''GET / HTTP/1.1'' @ crlf @ concat (replicate 51 (''A: b'' @ crlf)) @ crlf)]
       = Some (True, ''GET / HTTP/1.1'' @ crlf @ concat (replicate 51 (''A: b'' @ crlf)))"
proof -
  have a: "snd (scan_fields message haystack 0) = 0"
    by (rule scan_fields_counter)
  have b: "LimitRequestFields < length (replicate 51 (''A: b'' @ crlf))"
    by (simp add: LimitRequestFields_def)
  have c: "request [RdBytes (''GET / HTTP/1.1'' @ crlf @ concat (replicate 51 (''A: b'' @ crlf)) @ crlf)]
       = Some (True, ''GET / HTTP/1.1'' @ crlf @ concat (replicate 51 (''A: b'' @ crlf)))"
    by (simp add: replicate_51 request_eval)
  from a b c show ?thesis by simp
qed

end
